theory Spec2Isabelle
  imports Complex_Main "HOL-Library.Word"
begin

unbundle bit_operations_syntax

section \<open>Bytes, errors and log records\<close>

text \<open>
  A Python \<open>bytes\<close> or \<open>bytearray\<close> is a list of bytes; an element read from it is a
  Python \<open>int\<close> in \<open>range(256)\<close>, obtained here with \<open>uint\<close>. Python integers are
  unbounded and modelled as \<open>int\<close>.
\<close>

type_synonym byte = "8 word"

text \<open>
  Every failure the module raises itself is an \<open>OmnikInverterPacketInvalidError\<close>; the
  argument records which \<open>raise\<close> statement of \<open>tcp.py\<close> it was, with the values its
  message is formatted from. The other constructors are the built-in exceptions that
  the operations used by the module raise.
\<close>

datatype packet_invalid =
    ChecksumMismatch int int
  | InvalidReceiverSeparator
  | SerialNumberMismatch int int
  | InvalidStartByte
  | CouldOnlyRead nat nat
  | InvalidEndByte
  | UnknownMessageType int "byte list"
  | NoInformationReply

datatype error =
    OmnikInverterPacketInvalidError packet_invalid
  | IndexError
  | KeyError int
  | ValueError
  | OverflowError
  | IncompleteReadError
  | UnicodeDecodeError

text \<open>
  The calls of \<open>LOGGER\<close>, one constructor per call site, with the arguments passed.
  A string is a list of Unicode code points.
\<close>

type_synonym str = "nat list"

datatype log_record =
    DebugHandlingMessage "byte list"
  | DebugMessageType int int int
  | DebugSerialNotEqual int int
  | WarningMultipleInformationReply
  | WarningTextMessage str
  | WarningErrorMessage "byte list"
  | WarningUnexpectedUnknown0 int
  | WarningUnexpectedPadding0 "byte list"
  | WarningUnexpectedPadding nat "byte list"

section \<open>Constants of \<open>tcp.py\<close>\<close>

definition MESSAGE_START :: int where
  "MESSAGE_START = 0x68"

definition MESSAGE_END :: int where
  "MESSAGE_END = 0x16"

definition MESSAGE_SEND_SEP :: int where
  "MESSAGE_SEND_SEP = 0x40"

definition MESSAGE_RECV_SEP :: int where
  "MESSAGE_RECV_SEP = 0x41"

definition MESSAGE_TYPE_INFORMATION_REQUEST :: int where
  "MESSAGE_TYPE_INFORMATION_REQUEST = 0x30"

definition MESSAGE_TYPE_INFORMATION_REPLY :: int where
  "MESSAGE_TYPE_INFORMATION_REPLY = 0xB0"

definition MESSAGE_TYPE_ERROR_STRING :: int where
  "MESSAGE_TYPE_ERROR_STRING = 0xB1"

definition MESSAGE_TYPE_STRING :: int where
  "MESSAGE_TYPE_STRING = 0xF0"

definition UINT16_MAX :: int where
  "UINT16_MAX = 65535"

definition MESSAGE_HEADER_SIZE :: nat where
  "MESSAGE_HEADER_SIZE = 3 + 2 * 4 + 1"

section \<open>Built-in operations on integers and bytes\<close>

text \<open>\<open>sum(b)\<close> of a byte sequence.\<close>

definition bytes_sum :: "byte list \<Rightarrow> int" where
  "bytes_sum bs = sum_list (map uint bs)"

text \<open>
  \<open>v.to_bytes(n, "little")\<close>: \<open>OverflowError\<close> for a negative \<open>v\<close> and for one that
  does not fit in \<open>n\<close> bytes.
\<close>

definition to_bytes_little :: "nat \<Rightarrow> int \<Rightarrow> error + byte list" where
  "to_bytes_little n v =
     (if v < 0 \<or> 256 ^ n \<le> v then Inl OverflowError
      else Inr (map (\<lambda>i. word_of_int (v div 256 ^ i)) [0..<n]))"

text \<open>\<open>int.from_bytes(b, "little")\<close>, for a byte sequence of any length.\<close>

fun from_bytes_little :: "byte list \<Rightarrow> int" where
  "from_bytes_little [] = 0"
| "from_bytes_little (b # bs) = uint b + 256 * from_bytes_little bs"

section \<open>The frame codec\<close>

text \<open>
  \<open>_pack_message\<close>. \<open>bytearray([len(message), MESSAGE_SEND_SEP, message_type])\<close> raises
  \<open>ValueError\<close> unless every element is in \<open>range(256)\<close>.
\<close>

definition pack_message :: "int \<Rightarrow> int \<Rightarrow> byte list \<Rightarrow> error + byte list" where
  "pack_message message_type serial_number message =
     (if 255 < length message \<or> message_type < 0 \<or> 255 < message_type then Inl ValueError
      else case to_bytes_little 4 serial_number of
        Inl e \<Rightarrow> Inl e
      | Inr serial_bytes \<Rightarrow>
          let request_data =
                [word_of_nat (length message), word_of_int MESSAGE_SEND_SEP,
                 word_of_int message_type] @ serial_bytes @ serial_bytes @ message;
              checksum = bytes_sum request_data AND 0xFF
          in Inr (word_of_int MESSAGE_START # request_data
                    @ [word_of_int checksum] @ [word_of_int MESSAGE_END]))"

text \<open>
  \<open>_unpack_message\<close>: the result is the log records written and either the exception
  raised or the tuple returned. \<open>pop\<close> on an empty bytearray raises \<open>IndexError\<close>; a
  slice of a short bytearray is short, and \<open>int.from_bytes\<close> accepts it.
\<close>

type_synonym frame = "int \<times> int \<times> byte list"

definition unpack_message :: "byte list \<Rightarrow> log_record list \<times> (error + frame)" where
  "unpack_message message =
     (let log0 = [DebugHandlingMessage message] in
      if message = [] then (log0, Inl IndexError)
      else
        let message_checksum = uint (last message);
            message1 = butlast message;
            checksum = bytes_sum message1 AND 0xFF
        in
        if message_checksum \<noteq> checksum then
          (log0, Inl (OmnikInverterPacketInvalidError
                        (ChecksumMismatch checksum message_checksum)))
        else
          case message1 of
            [] \<Rightarrow> (log0, Inl IndexError)
          | length_byte # message2 \<Rightarrow>
              (case message2 of
                 [] \<Rightarrow> (log0, Inl IndexError)
               | sep # message3 \<Rightarrow>
                   if uint sep \<noteq> MESSAGE_RECV_SEP then
                     (log0, Inl (OmnikInverterPacketInvalidError InvalidReceiverSeparator))
                   else
                     (case message3 of
                        [] \<Rightarrow> (log0, Inl IndexError)
                      | type_byte # message4 \<Rightarrow>
                          let message_type = uint type_byte;
                              log1 = log0 @ [DebugMessageType message_type
                                               (uint length_byte) checksum];
                              serial0 = from_bytes_little (take 4 message4);
                              serial1 = from_bytes_little (take 4 (drop 4 message4))
                          in
                          if serial0 \<noteq> serial1 then
                            (log1, Inl (OmnikInverterPacketInvalidError
                                          (SerialNumberMismatch serial0 serial1)))
                          else (log1, Inr (message_type, serial0, drop 8 message4)))))"

text \<open>\<open>create_information_request\<close>.\<close>

definition create_information_request :: "int \<Rightarrow> error + byte list" where
  "create_information_request serial_number =
     pack_message MESSAGE_TYPE_INFORMATION_REQUEST serial_number [0x01, 0x00]"

section \<open>The message stream decoder\<close>

text \<open>
  The \<open>asyncio.StreamReader\<close> is the sequence of bytes it will still deliver, followed
  by the end of the stream. \<open>readexactly(n)\<close> returns the next \<open>n\<close> bytes and leaves
  the rest, or raises \<open>IncompleteReadError\<close> when the stream ends before.
\<close>

type_synonym reader = "byte list"

definition readexactly :: "nat \<Rightarrow> reader \<Rightarrow> error + byte list \<times> reader" where
  "readexactly n reader =
     (if length reader < n then Inl IncompleteReadError
      else Inr (take n reader, drop n reader))"

text \<open>The local \<open>readbyte\<close>: \<open>(await reader.readexactly(1))[0]\<close>.\<close>

definition readbyte :: "reader \<Rightarrow> error + int \<times> reader" where
  "readbyte reader =
     (case readexactly 1 reader of
        Inl e \<Rightarrow> Inl e
      | Inr (bs, reader') \<Rightarrow>
          (case bs of [] \<Rightarrow> Inl IndexError | b # _ \<Rightarrow> Inr (uint b, reader')))"

text \<open>
  One pass through the body of the \<open>while True\<close> loop of \<open>_unpack_messages\<close>, from its
  first statement to the test of the end byte: \<open>Inr None\<close> when the generator returns
  at the byte \<open>0xFF\<close>, otherwise the \<open>message\<close> that the \<open>yield\<close> statement passes to
  \<open>_unpack_message\<close>, with the reader as the pass leaves it.
\<close>

definition read_message :: "reader \<Rightarrow> error + (byte list \<times> reader) option" where
  "read_message reader =
     (case readbyte reader of
        Inl e \<Rightarrow> Inl e
      | Inr (message_start, reader1) \<Rightarrow>
          if message_start = 0xFF then Inr None
          else if message_start \<noteq> MESSAGE_START then
            Inl (OmnikInverterPacketInvalidError InvalidStartByte)
          else
            (case readbyte reader1 of
               Inl e \<Rightarrow> Inl e
             | Inr (original_length, reader2) \<Rightarrow>
                 let message_length = nat original_length + MESSAGE_HEADER_SIZE in
                 (case readexactly (message_length - 1) reader2 of
                    Inl e \<Rightarrow> Inl e
                  | Inr (bs, reader3) \<Rightarrow>
                      let message = word_of_int original_length # bs in
                      if length message \<noteq> message_length then
                        Inl (OmnikInverterPacketInvalidError
                               (CouldOnlyRead (length message) message_length))
                      else
                        (case readbyte reader3 of
                           Inl e \<Rightarrow> Inl e
                         | Inr (message_end, reader4) \<Rightarrow>
                             if message_end \<noteq> MESSAGE_END then
                               Inl (OmnikInverterPacketInvalidError InvalidEndByte)
                             else Inr (Some (message, reader4))))))"

text \<open>
  The generator \<open>_unpack_messages\<close> resumed once: it raises, returns (\<open>Inr None\<close>) or
  yields the tuple that \<open>_unpack_message\<close> returns, and is then suspended with the
  reader given.
\<close>

definition unpack_messages_next ::
    "reader \<Rightarrow> log_record list \<times> (error + (frame \<times> reader) option)" where
  "unpack_messages_next reader =
     (case read_message reader of
        Inl e \<Rightarrow> ([], Inl e)
      | Inr None \<Rightarrow> ([], Inr None)
      | Inr (Some (message, reader')) \<Rightarrow>
          (case unpack_message message of
             (lg, Inl e) \<Rightarrow> (lg, Inl e)
           | (lg, Inr f) \<Rightarrow> (lg, Inr (Some (f, reader')))))"

lemma readbyte_length:
  "readbyte reader = Inr (b, reader') \<Longrightarrow> length reader' < length reader"
  by (auto simp: readbyte_def readexactly_def split: if_splits list.splits)

lemma read_message_length:
  "read_message reader = Inr (Some (message, reader')) \<Longrightarrow> length reader' < length reader"
  by (auto simp: read_message_def Let_def readexactly_def
      split: sum.splits if_splits prod.splits dest!: readbyte_length)

lemma unpack_messages_next_length:
  "unpack_messages_next reader = (lg, Inr (Some (f, reader'))) \<Longrightarrow>
     length reader' < length reader"
  by (auto simp: unpack_messages_next_def
      split: sum.splits option.splits prod.splits dest: read_message_length)

text \<open>
  The generator run to its end by a consumer that only collects: the log records, the
  tuples yielded and the exception that ended it, if one did.
\<close>

function unpack_messages :: "reader \<Rightarrow> log_record list \<times> frame list \<times> error option" where
  "unpack_messages reader =
     (case unpack_messages_next reader of
        (lg, Inl e) \<Rightarrow> (lg, [], Some e)
      | (lg, Inr None) \<Rightarrow> (lg, [], None)
      | (lg, Inr (Some (f, reader'))) \<Rightarrow>
          (case unpack_messages reader' of
             (lg', fs, r) \<Rightarrow> (lg @ lg', f # fs, r)))"
  by pat_completeness auto
termination
  by (relation "measure length") (auto dest: unpack_messages_next_length[OF sym])

declare unpack_messages.simps [simp del]

section \<open>Python values: floats, text\<close>

text \<open>
  A Python \<open>float\<close> is an IEEE 754 binary64 number. A finite one is written here as
  the pair \<open>(m, e)\<close> of an odd integer \<open>m\<close> and an exponent \<open>e\<close>, standing for
  \<open>m \<sqdot> 2\<^sup>e\<close>, with \<open>(0, 0)\<close> for zero; \<open>float_value\<close> gives the number. Every
  operation rounds its exact result to 53 significant bits, to the nearest, ties to
  the even significand. The exponent range is not modelled: the floats of this module
  are products of an integer below \<open>2\<^sup>3\<^sup>2\<close> with \<open>0.1\<close> or \<open>0.01\<close>, far from overflow
  and from the subnormal numbers.
\<close>

type_synonym float = "int \<times> int"

definition float_value :: "float \<Rightarrow> rat" where
  "float_value a =
     (if 0 \<le> snd a then of_int (fst a) * 2 ^ nat (snd a)
      else of_int (fst a) / 2 ^ nat (- snd a))"

text \<open>\<open>n.bit_length()\<close> of a positive integer.\<close>

function bit_length :: "int \<Rightarrow> nat" where
  "bit_length n = (if n \<le> 0 then 0 else Suc (bit_length (n div 2)))"
  by pat_completeness auto
termination
  by (relation "measure nat") auto

declare bit_length.simps [simp del]

text \<open>The pair with an odd first component for \<open>m \<sqdot> 2\<^sup>e\<close>.\<close>

function normalise :: "int \<Rightarrow> int \<Rightarrow> float" where
  "normalise m e =
     (if m = 0 then (0, 0)
      else if even m then normalise (m div 2) (e + 1)
      else (m, e))"
  by pat_completeness auto
termination
  by (relation "measure (\<lambda>(m, e). nat \<bar>m\<bar>)") auto

declare normalise.simps [simp del]

text \<open>The integer nearest to \<open>p / q\<close> for \<open>0 \<le> p\<close> and \<open>0 < q\<close>, a tie going to the even one.\<close>

definition round_half_even :: "int \<Rightarrow> int \<Rightarrow> int" where
  "round_half_even p q =
     (let f = p div q; r = p mod q
      in if 2 * r < q then f
         else if q < 2 * r then f + 1
         else if even f then f else f + 1)"

text \<open>
  The float nearest to \<open>p / q\<close>, for \<open>0 < q\<close>: the quotient is scaled by the power of
  two \<open>2\<^sup>s\<close> that brings it into \<open>[2\<^sup>5\<^sup>2, 2\<^sup>5\<^sup>3)\<close> and rounded there.
\<close>

definition round_ratio :: "int \<Rightarrow> int \<Rightarrow> float" where
  "round_ratio p q =
     (if p = 0 then (0, 0)
      else
        let a = \<bar>p\<bar>;
            s0 = int (bit_length a) - int (bit_length q) - 53;
            scaled = (\<lambda>s. if s < 0 then (a * 2 ^ nat (- s), q) else (a, q * 2 ^ nat s));
            s = (if fst (scaled s0) < 2 ^ 53 * snd (scaled s0) then s0 else s0 + 1)
        in normalise (sgn p * round_half_even (fst (scaled s)) (snd (scaled s))) s)"

text \<open>
  A float literal whose decimal notation denotes \<open>p / q\<close> (\<open>0.1\<close> is
  \<open>float_literal 1 10\<close>), the conversion of an \<open>int\<close> that takes part in float
  arithmetic, and the product of two floats.
\<close>

definition float_literal :: "int \<Rightarrow> int \<Rightarrow> float" where
  "float_literal p q = round_ratio p q"

definition float_of_int :: "int \<Rightarrow> float" where
  "float_of_int v = round_ratio v 1"

definition float_mul :: "float \<Rightarrow> float \<Rightarrow> float" where
  "float_mul a b =
     (case round_ratio (fst a * fst b) 1 of
        (m, e) \<Rightarrow> normalise m (e + snd a + snd b))"

text \<open>\<open>v * c\<close> for an \<open>int\<close> \<open>v\<close> and a float \<open>c\<close>: \<open>v\<close> is converted first.\<close>

definition int_times_float :: "int \<Rightarrow> float \<Rightarrow> float" where
  "int_times_float v c = float_mul (float_of_int v) c"

text \<open>The values that \<open>_parse_information_reply\<close> stores in its result.\<close>

datatype pyvalue =
    PyNone
  | PyBool bool
  | PyInt int
  | PyFloat float
  | PyStr str
  | PyList "pyvalue list"

text \<open>
  A \<open>dict\<close> with string keys, as the list of its items in insertion order; \<open>map_of\<close>
  looks a key up.
\<close>

type_synonym dict = "(string \<times> pyvalue) list"

text \<open>
  \<open>b.decode("utf-8")\<close> with the default strict error handling: the code points of a
  well-formed UTF-8 byte sequence, \<open>None\<close> where Python raises \<open>UnicodeDecodeError\<close>
  (a stray or missing continuation byte, an overlong form, a surrogate, a code point
  beyond \<open>U+10FFFF\<close>).
\<close>

definition continuation :: "byte \<Rightarrow> bool" where
  "continuation b = (0x80 \<le> b \<and> b \<le> 0xBF)"

fun utf8_decode :: "byte list \<Rightarrow> str option" where
  "utf8_decode [] = Some []"
| "utf8_decode (b0 # bs) =
     (if b0 < 0x80 then map_option ((#) (unat b0)) (utf8_decode bs)
      else if 0xC2 \<le> b0 \<and> b0 \<le> 0xDF then
        (case bs of
           b1 # bs1 \<Rightarrow>
             if continuation b1 then
               map_option ((#) ((unat b0 - 0xC0) * 64 + (unat b1 - 0x80))) (utf8_decode bs1)
             else None
         | _ \<Rightarrow> None)
      else if 0xE0 \<le> b0 \<and> b0 \<le> 0xEF then
        (case bs of
           b1 # b2 # bs2 \<Rightarrow>
             if (if b0 = 0xE0 then 0xA0 \<le> b1 \<and> b1 \<le> 0xBF
                 else if b0 = 0xED then 0x80 \<le> b1 \<and> b1 \<le> 0x9F
                 else continuation b1)
                \<and> continuation b2 then
               map_option ((#) ((unat b0 - 0xE0) * 4096 + (unat b1 - 0x80) * 64
                                + (unat b2 - 0x80))) (utf8_decode bs2)
             else None
         | _ \<Rightarrow> None)
      else if 0xF0 \<le> b0 \<and> b0 \<le> 0xF4 then
        (case bs of
           b1 # b2 # b3 # bs3 \<Rightarrow>
             if (if b0 = 0xF0 then 0x90 \<le> b1 \<and> b1 \<le> 0xBF
                 else if b0 = 0xF4 then 0x80 \<le> b1 \<and> b1 \<le> 0x8F
                 else continuation b1)
                \<and> continuation b2 \<and> continuation b3 then
               map_option ((#) ((unat b0 - 0xF0) * 262144 + (unat b1 - 0x80) * 4096
                                + (unat b2 - 0x80) * 64 + (unat b3 - 0x80))) (utf8_decode bs3)
             else None
         | _ \<Rightarrow> None)
      else None)"

text \<open>\<open>s.strip()\<close>: the code points that \<open>str.isspace\<close> accepts are removed at both ends.\<close>

definition isspace :: "nat \<Rightarrow> bool" where
  "isspace c =
     ((0x09 \<le> c \<and> c \<le> 0x0D) \<or> (0x1C \<le> c \<and> c \<le> 0x20) \<or> c = 0x85 \<or> c = 0xA0
      \<or> c = 0x1680 \<or> (0x2000 \<le> c \<and> c \<le> 0x200A) \<or> c = 0x2028 \<or> c = 0x2029
      \<or> c = 0x202F \<or> c = 0x205F \<or> c = 0x3000)"

definition strip :: "str \<Rightarrow> str" where
  "strip s = rev (dropWhile isspace (rev (dropWhile isspace s)))"

section \<open>The information reply\<close>

text \<open>
  The \<open>ctypes\<close> structures. A \<open>BigEndianStructure\<close> with \<open>_pack_ = 1\<close> lays its fields
  out one after the other without padding, each integer most significant byte first.
\<close>

definition from_bytes_big :: "byte list \<Rightarrow> int" where
  "from_bytes_big bs = foldl (\<lambda>acc b. 256 * acc + uint b) 0 bs"

definition field_bytes :: "nat \<Rightarrow> nat \<Rightarrow> byte list \<Rightarrow> byte list" where
  "field_bytes offset n data = take n (drop offset data)"

definition c_ushort :: "nat \<Rightarrow> byte list \<Rightarrow> int" where
  "c_ushort offset data = from_bytes_big (field_bytes offset 2 data)"

definition c_uint :: "nat \<Rightarrow> byte list \<Rightarrow> int" where
  "c_uint offset data = from_bytes_big (field_bytes offset 4 data)"

definition c_ushort_array :: "nat \<Rightarrow> nat \<Rightarrow> byte list \<Rightarrow> int list" where
  "c_ushort_array offset n data = map (\<lambda>i. c_ushort (offset + 2 * i) data) [0..<n]"

text \<open>
  Reading a field of type \<open>c_char * n\<close> from a structure gives the bytes before the
  first zero byte.
\<close>

definition c_char_array_value :: "byte list \<Rightarrow> byte list" where
  "c_char_array_value bs = takeWhile (\<lambda>b. b \<noteq> 0) bs"

text \<open>
  The fields of \<open>_AcOutput\<close> and \<open>_TcpData\<close> carry the prefixes \<open>ac_\<close> and \<open>tcp_\<close>
  here, which keeps them apart from the variables and constants of the same names.
\<close>

record AcOutput =
  ac_frequency :: int
  ac_power :: int

definition get_power :: "AcOutput \<Rightarrow> pyvalue" where
  "get_power self = (if ac_power self = UINT16_MAX then PyNone else PyInt (ac_power self))"

definition get_frequency :: "AcOutput \<Rightarrow> pyvalue" where
  "get_frequency self =
     (if ac_frequency self = UINT16_MAX then PyNone
      else PyFloat (int_times_float (ac_frequency self) (float_literal 1 100)))"

record TcpData =
  tcp_padding0 :: "byte list"
  tcp_serial_number :: "byte list"
  tcp_temperature :: int
  tcp_dc_input_voltage :: "int list"
  tcp_dc_input_current :: "int list"
  tcp_ac_output_current :: "int list"
  tcp_ac_output_voltage :: "int list"
  tcp_ac_output :: "AcOutput list"
  tcp_solar_energy_today :: int
  tcp_solar_energy_total :: int
  tcp_solar_hours_total :: int
  tcp_inverter_active :: int
  tcp_padding1 :: "byte list"
  tcp_unknown0 :: int
  tcp_padding2 :: "byte list"
  tcp_firmware :: "byte list"
  tcp_padding3 :: "byte list"
  tcp_firmware_slave :: "byte list"
  tcp_padding4 :: "byte list"

text \<open>
  \<open>_TcpData.from_buffer_copy(data)\<close>: \<open>ValueError\<close> for a buffer shorter than the 125
  bytes of the structure; bytes beyond them are ignored.
\<close>

definition from_buffer_copy :: "byte list \<Rightarrow> error + TcpData" where
  "from_buffer_copy data =
     (if length data < 125 then Inl ValueError
      else Inr \<lparr>
        tcp_padding0 = field_bytes 0 3 data,
        tcp_serial_number = field_bytes 3 16 data,
        tcp_temperature = c_ushort 19 data,
        tcp_dc_input_voltage = c_ushort_array 21 3 data,
        tcp_dc_input_current = c_ushort_array 27 3 data,
        tcp_ac_output_current = c_ushort_array 33 3 data,
        tcp_ac_output_voltage = c_ushort_array 39 3 data,
        tcp_ac_output =
          map (\<lambda>i. \<lparr>ac_frequency = c_ushort (45 + 4 * i) data,
                      ac_power = c_ushort (45 + 4 * i + 2) data\<rparr>) [0..<3],
        tcp_solar_energy_today = c_ushort 57 data,
        tcp_solar_energy_total = c_uint 59 data,
        tcp_solar_hours_total = c_uint 63 data,
        tcp_inverter_active = c_ushort 67 data,
        tcp_padding1 = field_bytes 69 4 data,
        tcp_unknown0 = c_ushort 73 data,
        tcp_padding2 = field_bytes 75 10 data,
        tcp_firmware = field_bytes 85 16 data,
        tcp_padding3 = field_bytes 101 4 data,
        tcp_firmware_slave = field_bytes 105 16 data,
        tcp_padding4 = field_bytes 121 4 data\<rparr>)"

text \<open>The local functions of \<open>_parse_information_reply\<close>.\<close>

definition list_divide_10 :: "int list \<Rightarrow> pyvalue" where
  "list_divide_10 integers =
     PyList (map (\<lambda>v. if v = UINT16_MAX then PyNone
                      else PyFloat (int_times_float v (float_literal 1 10)))
               integers)"

definition int_to_bool :: "int \<Rightarrow> error + pyvalue" where
  "int_to_bool num =
     (if num = 0 then Inr (PyBool False)
      else if num = 1 then Inr (PyBool True)
      else Inl (KeyError num))"

definition temperature_to_float :: "int \<Rightarrow> pyvalue" where
  "temperature_to_float temp =
     (if temp = 65326 then PyNone
      else PyFloat (int_times_float temp (float_literal 1 10)))"

text \<open>
  \<open>_parse_information_reply\<close>. The warnings come first; then the fields are extracted
  in the order of \<open>field_extractors\<close>, and the first extraction that raises ends the
  function: decoding \<open>serial_number\<close>, then \<open>int_to_bool\<close>, then decoding \<open>firmware\<close>
  and \<open>firmware_slave\<close>.
\<close>

definition parse_information_reply :: "byte list \<Rightarrow> log_record list \<times> (error + dict)" where
  "parse_information_reply data =
     (case from_buffer_copy data of
        Inl e \<Rightarrow> ([], Inl e)
      | Inr tcp_data \<Rightarrow>
          let lg =
                (if tcp_unknown0 tcp_data \<noteq> 0 \<and> tcp_unknown0 tcp_data \<noteq> UINT16_MAX
                 then [WarningUnexpectedUnknown0 (tcp_unknown0 tcp_data)] else [])
                @ (if c_char_array_value (tcp_padding0 tcp_data) \<noteq> [0x81, 0x02, 0x01]
                   then [WarningUnexpectedPadding0 (c_char_array_value (tcp_padding0 tcp_data))]
                   else [])
                @ concat (map (\<lambda>(idx, padding).
                                 if bytes_sum padding \<noteq> 0
                                 then [WarningUnexpectedPadding idx padding] else [])
                            [(1, tcp_padding1 tcp_data), (2, tcp_padding2 tcp_data),
                             (3, tcp_padding3 tcp_data), (4, tcp_padding4 tcp_data)])
          in
          (case utf8_decode (c_char_array_value (tcp_serial_number tcp_data)) of
             None \<Rightarrow> (lg, Inl UnicodeDecodeError)
           | Some serial_number_str \<Rightarrow>
               (case int_to_bool (tcp_inverter_active tcp_data) of
                  Inl e \<Rightarrow> (lg, Inl e)
                | Inr inverter_active_bool \<Rightarrow>
                    (case utf8_decode (c_char_array_value (tcp_firmware tcp_data)) of
                       None \<Rightarrow> (lg, Inl UnicodeDecodeError)
                     | Some firmware_str \<Rightarrow>
                         (case utf8_decode (c_char_array_value (tcp_firmware_slave tcp_data)) of
                            None \<Rightarrow> (lg, Inl UnicodeDecodeError)
                          | Some firmware_slave_str \<Rightarrow>
                              (lg, Inr
                                [(''serial_number'', PyStr serial_number_str),
                                 (''temperature'', temperature_to_float (tcp_temperature tcp_data)),
                                 (''dc_input_voltage'',
                                    list_divide_10 (tcp_dc_input_voltage tcp_data)),
                                 (''dc_input_current'',
                                    list_divide_10 (tcp_dc_input_current tcp_data)),
                                 (''ac_output_current'',
                                    list_divide_10 (tcp_ac_output_current tcp_data)),
                                 (''ac_output_voltage'',
                                    list_divide_10 (tcp_ac_output_voltage tcp_data)),
                                 (''ac_output_frequency'',
                                    PyList (map get_frequency (tcp_ac_output tcp_data))),
                                 (''ac_output_power'',
                                    PyList (map get_power (tcp_ac_output tcp_data))),
                                 (''solar_energy_today'',
                                    PyFloat (int_times_float (tcp_solar_energy_today tcp_data)
                                               (float_literal 1 100))),
                                 (''solar_energy_total'',
                                    PyFloat (int_times_float (tcp_solar_energy_total tcp_data)
                                               (float_literal 1 10))),
                                 (''solar_hours_total'', PyInt (tcp_solar_hours_total tcp_data)),
                                 (''inverter_active'', inverter_active_bool),
                                 (''firmware'', PyStr firmware_str),
                                 (''firmware_slave'', PyStr firmware_slave_str)]))))))"

section \<open>\<open>parse_messages\<close>\<close>

text \<open>
  The \<open>async for\<close> loop of \<open>parse_messages\<close>. Each pass resumes the generator; when
  the generator returns, the loop ends with the value of \<open>info\<close>. The log records
  written so far are passed along.
\<close>

function parse_messages_loop ::
    "int \<Rightarrow> dict option \<Rightarrow> log_record list \<Rightarrow> reader
       \<Rightarrow> log_record list \<times> (error + dict option)" where
  "parse_messages_loop serial_number info lg reader =
     (case unpack_messages_next reader of
        (lg1, Inl e) \<Rightarrow> (lg @ lg1, Inl e)
      | (lg1, Inr None) \<Rightarrow> (lg @ lg1, Inr info)
      | (lg1, Inr (Some ((message_type, reply_serial_number, message), reader'))) \<Rightarrow>
          let lg2 = lg @ lg1
                    @ (if reply_serial_number \<noteq> serial_number
                       then [DebugSerialNotEqual reply_serial_number serial_number] else [])
          in
          if message_type = MESSAGE_TYPE_INFORMATION_REPLY then
            (let lg3 = lg2 @ (if info \<noteq> None then [WarningMultipleInformationReply] else [])
             in case parse_information_reply message of
                  (lg4, Inl e) \<Rightarrow> (lg3 @ lg4, Inl e)
                | (lg4, Inr new_info) \<Rightarrow>
                    parse_messages_loop serial_number (Some new_info) (lg3 @ lg4) reader')
          else if message_type = MESSAGE_TYPE_STRING then
            (case utf8_decode message of
               None \<Rightarrow> (lg2, Inl UnicodeDecodeError)
             | Some message_text \<Rightarrow>
                 parse_messages_loop serial_number info
                   (lg2 @ [WarningTextMessage (strip message_text)]) reader')
          else if message_type = MESSAGE_TYPE_ERROR_STRING then
            parse_messages_loop serial_number info (lg2 @ [WarningErrorMessage message]) reader'
          else
            (lg2, Inl (OmnikInverterPacketInvalidError
                         (UnknownMessageType message_type message))))"
  by pat_completeness auto
termination
  by (relation "measure (\<lambda>(serial_number, info, lg, reader). length reader)")
    (auto dest: unpack_messages_next_length[OF sym])

declare parse_messages_loop.simps [simp del]

text \<open>\<open>parse_messages\<close>.\<close>

definition parse_messages :: "int \<Rightarrow> reader \<Rightarrow> log_record list \<times> (error + dict)" where
  "parse_messages serial_number reader =
     (case parse_messages_loop serial_number None [] reader of
        (lg, Inl e) \<Rightarrow> (lg, Inl e)
      | (lg, Inr None) \<Rightarrow> (lg, Inl (OmnikInverterPacketInvalidError NoInformationReply))
      | (lg, Inr (Some info)) \<Rightarrow> (lg, Inr info))"

section \<open>Example data\<close>

text \<open>
  An information reply payload: temperature 250, a first DC input of 2000 and 15, a
  first AC output of 12, 2300, 5001 and 350, the other inputs and outputs unset or 0.
\<close>

definition example_information_reply :: "byte list" where
  "example_information_reply =
     [0x81, 0x02, 0x01, 0x4E, 0x4C, 0x44, 0x4E, 0x30, 0x31, 0x32, 0x30, 0x31, 0x33, 0x41, 0x42, 0x43,
      0x44, 0x45, 0x46, 0x00, 0xFA, 0x07, 0xD0, 0xFF, 0xFF, 0x00, 0x00, 0x00, 0x0F, 0x00, 0x00, 0xFF,
      0xFF, 0x00, 0x0C, 0xFF, 0xFF, 0xFF, 0xFF, 0x08, 0xFC, 0xFF, 0xFF, 0xFF, 0xFF, 0x13, 0x89, 0x01,
      0x5E, 0xFF, 0xFF, 0xFF, 0xFF, 0x00, 0x00, 0x00, 0x00, 0x00, 0x7B, 0x00, 0x00, 0xB2, 0x6E, 0x00,
      0x00, 0x26, 0x94, 0x00, 0x01, 0x00, 0x00, 0x00, 0x00, 0x00, 0x00, 0x00, 0x00, 0x00, 0x00, 0x00,
      0x00, 0x00, 0x00, 0x00, 0x00, 0x56, 0x35, 0x2E, 0x33, 0x42, 0x75, 0x69, 0x6C, 0x64, 0x00, 0x00,
      0x00, 0x00, 0x00, 0x00, 0x00, 0x00, 0x00, 0x00, 0x00, 0x56, 0x34, 0x2E, 0x31, 0x33, 0x42, 0x75,
      0x69, 0x6C, 0x64, 0x00, 0x00, 0x00, 0x00, 0x00, 0x00, 0x00, 0x00, 0x00, 0x00]"

text \<open>
  The dictionary that \<open>_parse_information_reply\<close> returns for it; the floats are
  25.0, 200.0, 0.0, 1.5, 1.2000000000000002, 230.0, 50.01, 1.23 and 4567.8.
\<close>

definition example_information :: dict where
  "example_information =
     [(''serial_number'',
        PyStr [78, 76, 68, 78, 48, 49, 50, 48, 49, 51, 65, 66, 67, 68, 69, 70]),
      (''temperature'', PyFloat (25, 0)),
      (''dc_input_voltage'', PyList [PyFloat (25, 3), PyNone, PyFloat (0, 0)]),
      (''dc_input_current'', PyList [PyFloat (3, - 1), PyFloat (0, 0), PyNone]),
      (''ac_output_current'', PyList [PyFloat (1351079888211149, - 50), PyNone, PyNone]),
      (''ac_output_voltage'', PyList [PyFloat (115, 1), PyNone, PyNone]),
      (''ac_output_frequency'', PyList [PyFloat (7038281792649953, - 47), PyNone, PyFloat (0, 0)]),
      (''ac_output_power'', PyList [PyInt 350, PyNone, PyInt 0]),
      (''solar_energy_today'', PyFloat (2769713770832855, - 51)),
      (''solar_energy_total'', PyFloat (5022349213355213, - 40)),
      (''solar_hours_total'', PyInt 9876),
      (''inverter_active'', PyBool True),
      (''firmware'', PyStr [86, 53, 46, 51, 66, 117, 105, 108, 100]),
      (''firmware_slave'', PyStr [86, 52, 46, 49, 51, 66, 117, 105, 108, 100])]"

text \<open>
  A stream with a text message (\<open>NO DATA\<close> and a line end), an information reply
  with the example payload and an error message, all sent with the serial number
  123456789, and the byte that ends the sequence.
\<close>

definition example_stream :: reader where
  "example_stream =
     [0x68, 0x09, 0x41, 0xF0, 0x15, 0xCD, 0x5B, 0x07, 0x15, 0xCD, 0x5B, 0x07, 0x4E, 0x4F, 0x20, 0x44,
      0x41, 0x54, 0x41, 0x0D, 0x0A, 0xB0, 0x16, 0x68, 0x7D, 0x41, 0xB0, 0x15, 0xCD, 0x5B, 0x07, 0x15,
      0xCD, 0x5B, 0x07, 0x81, 0x02, 0x01, 0x4E, 0x4C, 0x44, 0x4E, 0x30, 0x31, 0x32, 0x30, 0x31, 0x33,
      0x41, 0x42, 0x43, 0x44, 0x45, 0x46, 0x00, 0xFA, 0x07, 0xD0, 0xFF, 0xFF, 0x00, 0x00, 0x00, 0x0F,
      0x00, 0x00, 0xFF, 0xFF, 0x00, 0x0C, 0xFF, 0xFF, 0xFF, 0xFF, 0x08, 0xFC, 0xFF, 0xFF, 0xFF, 0xFF,
      0x13, 0x89, 0x01, 0x5E, 0xFF, 0xFF, 0xFF, 0xFF, 0x00, 0x00, 0x00, 0x00, 0x00, 0x7B, 0x00, 0x00,
      0xB2, 0x6E, 0x00, 0x00, 0x26, 0x94, 0x00, 0x01, 0x00, 0x00, 0x00, 0x00, 0x00, 0x00, 0x00, 0x00,
      0x00, 0x00, 0x00, 0x00, 0x00, 0x00, 0x00, 0x00, 0x56, 0x35, 0x2E, 0x33, 0x42, 0x75, 0x69, 0x6C,
      0x64, 0x00, 0x00, 0x00, 0x00, 0x00, 0x00, 0x00, 0x00, 0x00, 0x00, 0x00, 0x56, 0x34, 0x2E, 0x31,
      0x33, 0x42, 0x75, 0x69, 0x6C, 0x64, 0x00, 0x00, 0x00, 0x00, 0x00, 0x00, 0x00, 0x00, 0x00, 0x00,
      0x7B, 0x16, 0x68, 0x01, 0x41, 0xB1, 0x15, 0xCD, 0x5B, 0x07, 0x15, 0xCD, 0x5B, 0x07, 0x01, 0x7C,
      0x16, 0xFF]"

text \<open>
  A stream with a text message (\<open>NO DATA\<close> and a line end) and an error message,
  and no information reply.
\<close>

definition example_stream_without_reply :: reader where
  "example_stream_without_reply =
     [0x68, 0x09, 0x41, 0xF0, 0x15, 0xCD, 0x5B, 0x07, 0x15, 0xCD, 0x5B, 0x07, 0x4E, 0x4F, 0x20, 0x44,
      0x41, 0x54, 0x41, 0x0D, 0x0A, 0xB0, 0x16, 0x68, 0x01, 0x41, 0xB1, 0x15, 0xCD, 0x5B, 0x07, 0x15,
      0xCD, 0x5B, 0x07, 0x01, 0x7C, 0x16, 0xFF]"

text \<open>
  The log records other than the debug records about a reply with a serial number
  that was not requested.
\<close>

fun serial_debug :: "log_record \<Rightarrow> bool" where
  "serial_debug (DebugSerialNotEqual reply_serial_number serial_number) = True"
| "serial_debug other = False"

definition other_records :: "log_record list \<Rightarrow> log_record list" where
  "other_records lg = filter (\<lambda>r. \<not> serial_debug r) lg"

text \<open>
  The value of \<open>info\<close> in \<open>parse_messages\<close> after its loop has passed over the messages
  given: the decoding of the last information reply that decodes.
\<close>

fun last_information :: "dict option \<Rightarrow> frame list \<Rightarrow> dict option" where
  "last_information info [] = info"
| "last_information info ((message_type, reply_serial_number, message) # frames) =
     last_information
       (if message_type = MESSAGE_TYPE_INFORMATION_REPLY
        then (case snd (parse_information_reply message) of
                Inl e \<Rightarrow> info
              | Inr new_info \<Rightarrow> Some new_info)
        else info)
       frames"

section \<open>Properties of the built-in operations\<close>

lemma and_255_mod: "(x::int) AND 255 = x mod 256"
  using take_bit_eq_mask[of 8 x] by (simp add: take_bit_eq_mod mask_eq_exp_minus_1)

lemma word_of_bytes_sum: "(word_of_int (bytes_sum m) :: byte) = sum_list m"
  by (induction m) (simp_all add: bytes_sum_def)

text \<open>
  The comparison of the received checksum byte with \<open>sum(message) & 0xFF\<close> is an
  equation between bytes, the sum taken in arithmetic modulo 256.
\<close>

lemma checksum_as_word: "(uint (c::byte) = bytes_sum m AND 0xFF) = (c = sum_list m)"
proof -
  have "bytes_sum m AND 0xFF = uint (word_of_int (bytes_sum m) :: byte)"
    by (simp add: and_255_mod uint_word_of_int)
  then show ?thesis
    by (simp add: word_of_bytes_sum word_uint_eq_iff)
qed

lemma sum_list_update_word:
  "i < length xs \<Longrightarrow> sum_list (xs[i := y]) = sum_list xs - xs ! i + (y::byte)"
  by (induction xs arbitrary: i) (auto split: nat.splits)

lemma flip_bit_neq:
  assumes "k < 8"
  shows "flip_bit k (x::byte) \<noteq> x"
proof
  assume "flip_bit k x = x"
  then have "bit (flip_bit k x) k = bit x k"
    by simp
  with assms show False
    by (simp add: bit_flip_bit_iff)
qed

lemma from_bytes_little_map:
  "from_bytes_little (map (\<lambda>i. word_of_int (v div 256 ^ i)) [0..<n]) = v mod 256 ^ n"
proof (induction n arbitrary: v)
  case 0
  then show ?case by simp
next
  case (Suc n)
  have "[0..<Suc n] = 0 # map Suc [0..<n]"
    by (simp add: upt_conv_Cons map_Suc_upt del: upt_Suc)
  moreover have "v div (256 * 256 ^ i) = v div 256 div 256 ^ i" for i :: nat
    by (simp add: zdiv_zmult2_eq)
  ultimately have "from_bytes_little (map (\<lambda>i. word_of_int (v div 256 ^ i)) [0..<Suc n])
      = v mod 256
        + 256 * from_bytes_little (map (\<lambda>i. word_of_int ((v div 256) div 256 ^ i)) [0..<n])"
    by (simp add: uint_word_of_int take_bit_eq_mod comp_def del: upt_Suc)
  also have "\<dots> = v mod 256 + 256 * ((v div 256) mod 256 ^ n)"
    by (simp add: Suc.IH)
  also have "\<dots> = v mod 256 ^ Suc n"
    by (simp add: zmod_zmult2_eq)
  finally show ?case .
qed

lemma from_to_bytes_little:
  "to_bytes_little n v = Inr bs \<Longrightarrow> from_bytes_little bs = v"
  by (auto simp: to_bytes_little_def from_bytes_little_map split: if_splits)

lemma from_bytes_little_inj:
  "length xs = length ys \<Longrightarrow> from_bytes_little xs = from_bytes_little ys \<Longrightarrow> xs = ys"
proof (induction xs ys rule: list_induct2)
  case Nil
  then show ?case by simp
next
  case (Cons x xs y ys)
  have bx: "0 \<le> uint x" "uint x < 256" "0 \<le> uint y" "uint y < 256"
    using uint_lt2p[of x] uint_lt2p[of y] by simp_all
  from Cons.prems
  have e: "uint x + 256 * from_bytes_little xs = uint y + 256 * from_bytes_little ys"
    by simp
  then have "(uint x + 256 * from_bytes_little xs) mod 256
      = (uint y + 256 * from_bytes_little ys) mod 256"
    by (rule arg_cong)
  then have "uint x mod 256 = uint y mod 256"
    by simp
  with bx have u: "uint x = uint y"
    by simp
  with e have "from_bytes_little xs = from_bytes_little ys"
    by simp
  with u Cons.IH show ?case
    by (simp add: word_uint_eq_iff)
qed

section \<open>Properties of the frame codec\<close>

lemma unpack_message_checksum_error:
  assumes "message \<noteq> []"
    and "uint (last message) \<noteq> bytes_sum (butlast message) AND 0xFF"
  shows "snd (unpack_message message) =
           Inl (OmnikInverterPacketInvalidError
                  (ChecksumMismatch (bytes_sum (butlast message) AND 0xFF)
                     (uint (last message))))"
  using assms by (simp add: unpack_message_def Let_def)

lemma unpack_message_accepts:
  assumes "snd (unpack_message message) = Inr f"
  shows "message \<noteq> [] \<and> uint (last message) = bytes_sum (butlast message) AND 0xFF"
  using assms by (auto simp: unpack_message_def Let_def split: if_splits)

lemma unpack_message_reply_body:
  assumes "uint c = bytes_sum (length_byte # sep # type_byte # rest) AND 0xFF"
    and "uint sep = MESSAGE_RECV_SEP"
  shows "snd (unpack_message (length_byte # sep # type_byte # rest @ [c])) =
           (if from_bytes_little (take 4 rest) \<noteq> from_bytes_little (take 4 (drop 4 rest))
            then Inl (OmnikInverterPacketInvalidError
                        (SerialNumberMismatch (from_bytes_little (take 4 rest))
                           (from_bytes_little (take 4 (drop 4 rest)))))
            else Inr (uint type_byte, from_bytes_little (take 4 rest), drop 8 rest))"
proof -
  let ?m = "length_byte # sep # type_byte # rest @ [c]"
  have l: "last ?m = c"
    by simp
  have b: "butlast ?m = length_byte # sep # type_byte # rest"
    by (simp add: butlast_append)
  show ?thesis
    unfolding unpack_message_def Let_def l b
    by (simp add: assms(2) assms(1)[symmetric])
qed

text \<open>
  Claim C5. Whenever \<open>_unpack_message\<close> accepts a frame body, the body with one bit
  flipped in any byte but the last one (the checksum byte) is refused with the
  checksum mismatch error. The error reports the checksum computed over the changed
  bytes and the unchanged checksum byte received.
\<close>

theorem checksum_sensitivity:
  assumes "snd (unpack_message body) = Inr f" and "i < length body - 1" and "k < 8"
  shows "snd (unpack_message (body[i := flip_bit k (body ! i)])) =
           Inl (OmnikInverterPacketInvalidError
                  (ChecksumMismatch
                     (bytes_sum (butlast (body[i := flip_bit k (body ! i)])) AND 0xFF)
                     (uint (last body))))"
proof -
  let ?body' = "body[i := flip_bit k (body ! i)]"
  from assms(1) have ne: "body \<noteq> []" and ok: "last body = sum_list (butlast body)"
    using unpack_message_accepts[of body f] by (simp_all add: checksum_as_word)
  from assms(2) have i: "i < length (butlast body)"
    by simp
  have l: "last ?body' = last body"
    using ne assms(2) by (simp add: last_list_update)
  have b: "butlast (body[i := y]) = (butlast body)[i := y]" for y
    using assms(2) by (simp add: butlast_list_update)
  have n: "body ! i = butlast body ! i"
    using i by (simp add: nth_butlast)
  have "sum_list (butlast ?body') = sum_list (butlast body) - body ! i + flip_bit k (body ! i)"
    using i by (simp only: b sum_list_update_word n)
  moreover have "flip_bit k (body ! i) \<noteq> body ! i"
    using assms(3) by (rule flip_bit_neq)
  ultimately have "last ?body' \<noteq> sum_list (butlast ?body')"
    by (simp add: l ok)
  then have "uint (last ?body') \<noteq> bytes_sum (butlast ?body') AND 0xFF"
    by (simp only: checksum_as_word not_False_eq_True)
  moreover have "?body' \<noteq> []"
    using ne by simp
  ultimately have "snd (unpack_message ?body') =
      Inl (OmnikInverterPacketInvalidError
             (ChecksumMismatch (bytes_sum (butlast ?body') AND 0xFF) (uint (last ?body'))))"
    by (rule unpack_message_checksum_error[rotated])
  then show ?thesis
    by (simp only: l)
qed

theorem checksum_sensitivity_witness:
  "snd (unpack_message [0x02, 0x41, 0xB1, 1, 2, 3, 4, 1, 2, 3, 4, 0x61, 0x62, 0xCB]) =
     Inr (0xB1, 0x04030201, [0x61, 0x62])
   \<and> snd (unpack_message [0x02, 0x41, 0xB1, 0, 2, 3, 4, 1, 2, 3, 4, 0x61, 0x62, 0xCB]) =
     Inl (OmnikInverterPacketInvalidError (ChecksumMismatch 0xCA 0xCB))"
proof -
  let ?body = "[0x02, 0x41, 0xB1, 1, 2, 3, 4, 1, 2, 3, 4, 0x61, 0x62, 0xCB] :: byte list"
  have h: "snd (unpack_message ?body) = Inr (0xB1, 0x04030201, [0x61, 0x62])"
    by (simp add: unpack_message_def bytes_sum_def MESSAGE_RECV_SEP_def)
  have i: "(3::nat) < length ?body - 1" by simp
  have k: "(0::nat) < 8" by simp
  have u: "?body[3 := flip_bit 0 (?body ! 3)] = [0x02, 0x41, 0xB1, 0, 2, 3, 4, 1, 2, 3, 4, 0x61, 0x62, 0xCB]"
    by code_simp
  have c: "bytes_sum (butlast [0x02, 0x41, 0xB1, 0, 2, 3, 4, 1, 2, 3, 4, 0x61, 0x62, 0xCB]) AND 0xFF = 0xCA"
    by (simp add: bytes_sum_def)
  have l: "uint (last ?body) = 0xCB" by simp
  from checksum_sensitivity[OF h i k] h show ?thesis
    unfolding u c l by simp
qed

text \<open>
  Claim C7. A frame body with a valid checksum and the receive separator carries two
  copies of the serial number, four bytes each, directly after the message type.
  \<open>_unpack_message\<close> raises the serial number mismatch error when the copies differ;
  when they are the same bytes it returns their little-endian value as the serial
  number, with the message type and the payload.
\<close>

theorem unpack_message_serial_copies:
  assumes "length serial0 = 4" and "length serial1 = 4"
    and "uint sep = MESSAGE_RECV_SEP"
    and "uint c = bytes_sum (length_byte # sep # type_byte # serial0 @ serial1 @ payload) AND 0xFF"
  shows "snd (unpack_message (length_byte # sep # type_byte # serial0 @ serial1 @ payload @ [c])) =
           (if serial0 = serial1
            then Inr (uint type_byte, from_bytes_little serial0, payload)
            else Inl (OmnikInverterPacketInvalidError
                        (SerialNumberMismatch (from_bytes_little serial0)
                           (from_bytes_little serial1))))"
proof -
  have inj: "(from_bytes_little serial0 = from_bytes_little serial1) = (serial0 = serial1)"
    using assms(1,2) from_bytes_little_inj[of serial0 serial1] by auto
  have "snd (unpack_message (length_byte # sep # type_byte # (serial0 @ serial1 @ payload) @ [c])) =
      (if from_bytes_little serial0 \<noteq> from_bytes_little serial1
       then Inl (OmnikInverterPacketInvalidError
                   (SerialNumberMismatch (from_bytes_little serial0) (from_bytes_little serial1)))
       else Inr (uint type_byte, from_bytes_little serial0, payload))"
    using unpack_message_reply_body[OF assms(4) assms(3)] assms(1,2) by simp
  then show ?thesis
    by (simp add: inj)
qed

text \<open>Two frame bodies, one with equal and one with differing copies.\<close>

theorem unpack_message_serial_copies_witness:
  "snd (unpack_message [0x02, 0x41, 0xB1, 1, 2, 3, 4, 1, 2, 3, 4, 0x61, 0x62, 0xCB]) =
     Inr (0xB1, 0x04030201, [0x61, 0x62])
   \<and> snd (unpack_message [0x02, 0x41, 0xB1, 1, 2, 3, 4, 1, 2, 3, 5, 0x61, 0x62, 0xCC]) =
     Inl (OmnikInverterPacketInvalidError (SerialNumberMismatch 0x04030201 0x05030201))"
proof -
  have s: "uint (0x41 :: byte) = MESSAGE_RECV_SEP"
    by (simp add: MESSAGE_RECV_SEP_def)
  have l: "length [1, 2, 3, 4 :: byte] = 4" "length [1, 2, 3, 5 :: byte] = 4"
    by simp_all
  have c1: "uint (0xCB :: byte) =
      bytes_sum (0x02 # 0x41 # 0xB1 # [1, 2, 3, 4] @ [1, 2, 3, 4] @ [0x61, 0x62]) AND 0xFF"
    by (simp add: bytes_sum_def)
  have c2: "uint (0xCC :: byte) =
      bytes_sum (0x02 # 0x41 # 0xB1 # [1, 2, 3, 4] @ [1, 2, 3, 5] @ [0x61, 0x62]) AND 0xFF"
    by (simp add: bytes_sum_def)
  from unpack_message_serial_copies[OF l(1) l(1) s c1]
    unpack_message_serial_copies[OF l(1) l(2) s c2]
  show ?thesis
    by simp
qed

lemma to_bytes_little_length: "to_bytes_little n v = Inr bs \<Longrightarrow> length bs = n"
  by (auto simp: to_bytes_little_def split: if_splits)

lemma pack_message_Inr:
  assumes "to_bytes_little 4 serial_number = Inr serial_bytes"
    and "0 \<le> message_type" and "message_type \<le> 255" and "length message \<le> 255"
  shows "pack_message message_type serial_number message =
           Inr (0x68 # (word_of_nat (length message) # 0x40 # word_of_int message_type
                          # serial_bytes @ serial_bytes @ message)
                  @ [sum_list (word_of_nat (length message) # 0x40 # word_of_int message_type
                                 # serial_bytes @ serial_bytes @ message), 0x16])"
proof -
  have "word_of_int (bytes_sum m AND 0xFF) = (sum_list m :: byte)" for m
    using checksum_as_word[of "sum_list m" m] by (metis word_of_int_uint)
  then show ?thesis
    using assms
    by (simp add: pack_message_def Let_def MESSAGE_START_def MESSAGE_END_def MESSAGE_SEND_SEP_def)
qed

text \<open>
  Claim C1, as the code has it. \<open>_pack_message\<close> writes the send separator \<open>0x40\<close>
  and \<open>_unpack_message\<close> requires the receive separator \<open>0x41\<close>. For a serial
  number in \<open>[0, 2\<^sup>3\<^sup>2)\<close>, a message type in \<open>[0, 255]\<close> and a payload of at most 255
  bytes, \<open>_pack_message\<close> returns a frame; \<open>_unpack_message\<close> applied to its body
  (the bytes between the start and the end marker) raises the invalid receiver
  separator error; applied to the same body with the separator replaced by \<open>0x41\<close> and
  the checksum byte increased by one accordingly, it returns the message type, the
  serial number and the payload that were packed.
\<close>

theorem pack_unpack_message:
  assumes "0 \<le> serial_number" and "serial_number < 2 ^ 32"
    and "0 \<le> message_type" and "message_type \<le> 255" and "length message \<le> 255"
  shows "\<exists>out. pack_message message_type serial_number message = Inr out
           \<and> snd (unpack_message (butlast (tl out))) =
                 Inl (OmnikInverterPacketInvalidError InvalidReceiverSeparator)
           \<and> snd (unpack_message
                     ((butlast (tl out))
                        [1 := word_of_int MESSAGE_RECV_SEP,
                         length (butlast (tl out)) - 1 := last (butlast (tl out)) + 1])) =
                 Inr (message_type, serial_number, message)"
proof -
  obtain serial_bytes where sb: "to_bytes_little 4 serial_number = Inr serial_bytes"
    using assms(1,2) by (simp add: to_bytes_little_def)
  have len: "length serial_bytes = 4"
    using sb by (rule to_bytes_little_length)
  have val: "from_bytes_little serial_bytes = serial_number"
    using sb by (rule from_to_bytes_little)
  define l :: byte where "l = word_of_nat (length message)"
  define t :: byte where "t = word_of_int message_type"
  define rest where "rest = serial_bytes @ serial_bytes @ message"
  define c :: byte where "c = sum_list (l # 0x40 # t # rest)"
  let ?out = "0x68 # (l # 0x40 # t # rest) @ [c, 0x16]"
  have out: "pack_message message_type serial_number message = Inr ?out"
    using pack_message_Inr[OF sb assms(3,4,5)] by (simp add: l_def t_def rest_def c_def)
  have body: "butlast (tl ?out) = l # 0x40 # t # rest @ [c]"
    by (simp add: butlast_append)
  have "uint c = bytes_sum (l # 0x40 # t # rest) AND 0xFF"
    by (simp only: checksum_as_word c_def)
  then have send: "snd (unpack_message (l # 0x40 # t # rest @ [c])) =
      Inl (OmnikInverterPacketInvalidError InvalidReceiverSeparator)"
    by (simp add: unpack_message_def Let_def butlast_append MESSAGE_RECV_SEP_def)
  have upd: "(l # 0x40 # t # rest @ [c])
      [1 := word_of_int MESSAGE_RECV_SEP,
       length (l # 0x40 # t # rest @ [c]) - 1 := last (l # 0x40 # t # rest @ [c]) + 1]
      = l # 0x41 # t # rest @ [c + 1]"
    by (simp add: MESSAGE_RECV_SEP_def list_update_append)
  have "c + 1 = sum_list (l # 0x41 # t # rest)"
    by (simp add: c_def)
  then have "uint (c + 1) = bytes_sum (l # 0x41 # t # rest) AND 0xFF"
    by (simp only: checksum_as_word)
  moreover have "uint (0x41 :: byte) = MESSAGE_RECV_SEP"
    by (simp add: MESSAGE_RECV_SEP_def)
  ultimately have "snd (unpack_message (l # 0x41 # t # rest @ [c + 1])) =
      (if from_bytes_little (take 4 rest) \<noteq> from_bytes_little (take 4 (drop 4 rest))
       then Inl (OmnikInverterPacketInvalidError
                   (SerialNumberMismatch (from_bytes_little (take 4 rest))
                      (from_bytes_little (take 4 (drop 4 rest)))))
       else Inr (uint t, from_bytes_little (take 4 rest), drop 8 rest))"
    by (rule unpack_message_reply_body)
  moreover have "take 4 rest = serial_bytes" "take 4 (drop 4 rest) = serial_bytes"
    "drop 8 rest = message"
    using len by (simp_all add: rest_def)
  moreover have "uint t = message_type"
    using assms(3,4) by (simp add: t_def uint_word_of_int take_bit_eq_mod)
  ultimately have recv: "snd (unpack_message (l # 0x41 # t # rest @ [c + 1])) =
      Inr (message_type, serial_number, message)"
    by (simp add: val)
  show ?thesis
    using out send recv unfolding body[symmetric] upd[symmetric]
    by (intro exI[of _ ?out] conjI) (simp_all only: body)
qed

text \<open>The information request for the serial number 123456789.\<close>

lemma create_information_request_123456789:
  "pack_message 0x30 123456789 [0x01, 0x00] =
     Inr [0x68, 0x02, 0x40, 0x30, 0x15, 0xCD, 0x5B, 0x07, 0x15, 0xCD, 0x5B, 0x07,
          0x01, 0x00, 0xFB, 0x16]"
  by (simp add: pack_message_def to_bytes_little_def upt_rec bytes_sum_def Let_def
      MESSAGE_START_def MESSAGE_END_def MESSAGE_SEND_SEP_def)

lemma create_information_request_value:
  "create_information_request 123456789 =
     Inr [0x68, 0x02, 0x40, 0x30, 0x15, 0xCD, 0x5B, 0x07, 0x15, 0xCD, 0x5B, 0x07,
          0x01, 0x00, 0xFB, 0x16]"
  using create_information_request_123456789
  by (simp add: create_information_request_def MESSAGE_TYPE_INFORMATION_REQUEST_def)

text \<open>The request for serial number 123456789, and its body as a reply would carry it.\<close>

theorem pack_unpack_message_witness:
  "pack_message 0x30 123456789 [0x01, 0x00] =
     Inr [0x68, 0x02, 0x40, 0x30, 0x15, 0xCD, 0x5B, 0x07, 0x15, 0xCD, 0x5B, 0x07,
          0x01, 0x00, 0xFB, 0x16]
   \<and> snd (unpack_message [0x02, 0x40, 0x30, 0x15, 0xCD, 0x5B, 0x07, 0x15, 0xCD, 0x5B, 0x07,
                            0x01, 0x00, 0xFB]) =
       Inl (OmnikInverterPacketInvalidError InvalidReceiverSeparator)
   \<and> snd (unpack_message [0x02, 0x41, 0x30, 0x15, 0xCD, 0x5B, 0x07, 0x15, 0xCD, 0x5B, 0x07,
                            0x01, 0x00, 0xFC]) =
       Inr (0x30, 123456789, [0x01, 0x00])"
proof -
  let ?out = "[0x68, 0x02, 0x40, 0x30, 0x15, 0xCD, 0x5B, 0x07, 0x15, 0xCD, 0x5B, 0x07,
               0x01, 0x00, 0xFB, 0x16] :: byte list"
  have p: "pack_message 0x30 123456789 [0x01, 0x00] = Inr ?out"
    by (rule create_information_request_123456789)
  have b: "butlast (tl ?out) = [0x02, 0x40, 0x30, 0x15, 0xCD, 0x5B, 0x07, 0x15, 0xCD, 0x5B, 0x07,
                                0x01, 0x00, 0xFB]"
    by simp
  have u: "[0x02, 0x40, 0x30, 0x15, 0xCD, 0x5B, 0x07, 0x15, 0xCD, 0x5B, 0x07, 0x01, 0x00, 0xFB]
             [1 := word_of_int MESSAGE_RECV_SEP,
              length [0x02, 0x40, 0x30, 0x15, 0xCD, 0x5B, 0x07, 0x15, 0xCD, 0x5B, 0x07,
                      0x01, 0x00, 0xFB :: byte] - 1 :=
                last [0x02, 0x40, 0x30, 0x15, 0xCD, 0x5B, 0x07, 0x15, 0xCD, 0x5B, 0x07,
                      0x01, 0x00, 0xFB] + 1]
           = [0x02, 0x41, 0x30, 0x15, 0xCD, 0x5B, 0x07, 0x15, 0xCD, 0x5B, 0x07, 0x01, 0x00,
              0xFC :: byte]"
    by code_simp
  have "(0::int) \<le> 123456789" "(123456789::int) < 2 ^ 32" "(0::int) \<le> 0x30"
    "(0x30::int) \<le> 255" "length [0x01, 0x00 :: byte] \<le> 255"
    by simp_all
  from pack_unpack_message[OF this] show ?thesis
    unfolding p by (simp only: sum.inject simp_thms ex_simps b u)
qed

text \<open>
  The round trip as such fails: the body of the packed request is not unpacked to the
  values packed, but refused.
\<close>

theorem pack_unpack_roundtrip_counterexample:
  "pack_message 0x30 123456789 [0x01, 0x00] =
     Inr [0x68, 0x02, 0x40, 0x30, 0x15, 0xCD, 0x5B, 0x07, 0x15, 0xCD, 0x5B, 0x07,
          0x01, 0x00, 0xFB, 0x16]
   \<and> snd (unpack_message
            (butlast (tl [0x68, 0x02, 0x40, 0x30, 0x15, 0xCD, 0x5B, 0x07, 0x15, 0xCD, 0x5B, 0x07,
                          0x01, 0x00, 0xFB, 0x16]))) =
       Inl (OmnikInverterPacketInvalidError InvalidReceiverSeparator)
   \<and> snd (unpack_message
            (butlast (tl [0x68, 0x02, 0x40, 0x30, 0x15, 0xCD, 0x5B, 0x07, 0x15, 0xCD, 0x5B, 0x07,
                          0x01, 0x00, 0xFB, 0x16]))) \<noteq>
       Inr (0x30, 123456789, [0x01, 0x00])"
  by (simp add: create_information_request_123456789 unpack_message_def bytes_sum_def
      MESSAGE_RECV_SEP_def)

section \<open>Properties of the message stream decoder\<close>

lemma readbyte_Cons: "readbyte (b # reader) = Inr (uint b, reader)"
  by (simp add: readbyte_def readexactly_def)

lemma readbyte_Nil: "readbyte [] = Inl IncompleteReadError"
  by (simp add: readbyte_def readexactly_def)

lemma read_message_terminated: "read_message (0xFF # reader) = Inr None"
  by (simp only: read_message_def readbyte_Cons sum.case prod.case) simp

lemma unpack_messages_next_terminated:
  "unpack_messages_next (0xFF # reader) = ([], Inr None)"
  by (simp only: unpack_messages_next_def read_message_terminated sum.case option.case)

text \<open>
  Claim C8. A byte source whose first byte is \<open>0xFF\<close> makes \<open>_unpack_messages\<close>
  return at once: it yields no frame, writes no log record and raises no exception,
  whatever follows in the source.
\<close>

theorem unpack_messages_terminated:
  "unpack_messages (0xFF # reader) = ([], [], None)"
  by (subst unpack_messages.simps)
    (simp only: unpack_messages_next_terminated prod.case sum.case option.case)

lemma MESSAGE_HEADER_SIZE_12: "MESSAGE_HEADER_SIZE = 12"
  by (simp add: MESSAGE_HEADER_SIZE_def)

lemma read_message_start:
  "read_message (0x68 # L # reader) =
     (let n = unat L + MESSAGE_HEADER_SIZE - 1 in
      if length reader < n then Inl IncompleteReadError
      else case drop n reader of
             [] \<Rightarrow> Inl IncompleteReadError
           | message_end # reader' \<Rightarrow>
               if uint message_end \<noteq> MESSAGE_END
               then Inl (OmnikInverterPacketInvalidError InvalidEndByte)
               else Inr (Some (L # take n reader, reader')))"
proof -
  define n where "n = unat L + MESSAGE_HEADER_SIZE - 1"
  have a: "(uint (0x68 :: byte) = (0xFF :: int)) = False"
    by simp
  have b: "(uint (0x68 :: byte) \<noteq> MESSAGE_START) = False"
    by (simp add: MESSAGE_START_def)
  have c: "nat (uint L) + MESSAGE_HEADER_SIZE - 1 = n"
    by (simp add: n_def)
  have d: "nat (uint L) + MESSAGE_HEADER_SIZE = Suc n"
    by (simp add: n_def MESSAGE_HEADER_SIZE_12)
  have e: "(word_of_int (uint L) :: byte) = L"
    by simp
  have start: "read_message (0x68 # L # reader) =
      (case readexactly n reader of
         Inl e \<Rightarrow> Inl e
       | Inr (bs, reader3) \<Rightarrow>
           if length (L # bs) \<noteq> Suc n then
             Inl (OmnikInverterPacketInvalidError (CouldOnlyRead (length (L # bs)) (Suc n)))
           else
             (case readbyte reader3 of
                Inl e \<Rightarrow> Inl e
              | Inr (message_end, reader4) \<Rightarrow>
                  if message_end \<noteq> MESSAGE_END then
                    Inl (OmnikInverterPacketInvalidError InvalidEndByte)
                  else Inr (Some (L # bs, reader4))))"
    by (simp only: read_message_def readbyte_Cons sum.case prod.case a b if_False Let_def d e diff_Suc_1)
  show ?thesis
  proof (cases "length reader < n")
    case True
    then show ?thesis
      unfolding start Let_def n_def[symmetric] by (simp add: readexactly_def)
  next
    case False
    then have r: "readexactly n reader = Inr (take n reader, drop n reader)"
      by (simp add: readexactly_def)
    from False have l: "length (L # take n reader) = Suc n"
      by simp
    show ?thesis
    proof (cases "drop n reader")
      case Nil
      with False show ?thesis
        unfolding start Let_def n_def[symmetric] r
        by (simp only: sum.case prod.case l readbyte_Nil list.case) simp
    next
      case (Cons message_end reader')
      with False show ?thesis
        unfolding start Let_def n_def[symmetric] r
        by (simp only: sum.case prod.case l readbyte_Cons list.case) simp
    qed
  qed
qed

text \<open>
  Claim C2, as the code has it. After the start marker and a length byte \<open>L\<close>,
  \<open>_unpack_messages\<close> reads exactly \<open>L + MESSAGE_HEADER_SIZE - 1\<close> further bytes, where
  \<open>MESSAGE_HEADER_SIZE\<close> is 12 (length, separator, type, two serial numbers of four
  bytes, checksum), that is \<open>L + 11\<close> bytes, and then the end byte. A stream that ends
  before gives \<open>IncompleteReadError\<close>; an end byte other than \<open>0x16\<close> gives the invalid
  end byte error; otherwise \<open>[L]\<close> followed by the \<open>L + 11\<close> bytes is what is passed to
  \<open>_unpack_message\<close>, whose result is yielded or raised, and the reader is left behind
  the end byte.
\<close>

theorem unpack_messages_reads_frame:
  "MESSAGE_HEADER_SIZE = 12
   \<and> read_message (0x68 # L # reader) =
       (let n = unat L + MESSAGE_HEADER_SIZE - 1 in
        if length reader < n then Inl IncompleteReadError
        else case drop n reader of
               [] \<Rightarrow> Inl IncompleteReadError
             | message_end # reader' \<Rightarrow>
                 if uint message_end \<noteq> MESSAGE_END
                 then Inl (OmnikInverterPacketInvalidError InvalidEndByte)
                 else Inr (Some (L # take n reader, reader')))
   \<and> unpack_messages_next (0x68 # L # reader) =
       (case read_message (0x68 # L # reader) of
          Inl e \<Rightarrow> ([], Inl e)
        | Inr None \<Rightarrow> ([], Inr None)
        | Inr (Some (message, reader')) \<Rightarrow>
            (fst (unpack_message message),
             map_sum id (\<lambda>f. Some (f, reader')) (snd (unpack_message message))))"
proof (intro conjI)
  show "MESSAGE_HEADER_SIZE = 12"
    by (rule MESSAGE_HEADER_SIZE_12)
  show "read_message (0x68 # L # reader) =
       (let n = unat L + MESSAGE_HEADER_SIZE - 1 in
        if length reader < n then Inl IncompleteReadError
        else case drop n reader of
               [] \<Rightarrow> Inl IncompleteReadError
             | message_end # reader' \<Rightarrow>
                 if uint message_end \<noteq> MESSAGE_END
                 then Inl (OmnikInverterPacketInvalidError InvalidEndByte)
                 else Inr (Some (L # take n reader, reader')))"
    by (rule read_message_start)
  show "unpack_messages_next (0x68 # L # reader) =
       (case read_message (0x68 # L # reader) of
          Inl e \<Rightarrow> ([], Inl e)
        | Inr None \<Rightarrow> ([], Inr None)
        | Inr (Some (message, reader')) \<Rightarrow>
            (fst (unpack_message message),
             map_sum id (\<lambda>f. Some (f, reader')) (snd (unpack_message message))))"
    unfolding unpack_messages_next_def
    by (auto split: sum.splits option.splits prod.splits)
qed

text \<open>A stream with one frame of length byte 0: eleven further bytes are read.\<close>

theorem unpack_messages_reads_frame_witness:
  "read_message [0x68, 0x00, 0x41, 0xB1, 0, 0, 0, 0, 0, 0, 0, 0, 0xF2, 0x16, 0xFF] =
     Inr (Some ([0x00, 0x41, 0xB1, 0, 0, 0, 0, 0, 0, 0, 0, 0xF2], [0xFF]))
   \<and> snd (unpack_messages_next
            [0x68, 0x00, 0x41, 0xB1, 0, 0, 0, 0, 0, 0, 0, 0, 0xF2, 0x16, 0xFF]) =
       Inr (Some ((0xB1, 0, []), [0xFF]))"
proof -
  let ?reader = "[0x41, 0xB1, 0, 0, 0, 0, 0, 0, 0, 0, 0xF2, 0x16, 0xFF] :: byte list"
  note t = unpack_messages_reads_frame[of "0x00" ?reader]
  have n: "unat (0x00 :: byte) + MESSAGE_HEADER_SIZE - 1 = 11"
    by (simp add: MESSAGE_HEADER_SIZE_12)
  have r: "read_message (0x68 # 0x00 # ?reader) =
      Inr (Some ([0x00, 0x41, 0xB1, 0, 0, 0, 0, 0, 0, 0, 0, 0xF2], [0xFF]))"
    using t unfolding Let_def n by (simp add: MESSAGE_END_def)
  have u: "snd (unpack_message [0x00, 0x41, 0xB1, 0, 0, 0, 0, 0, 0, 0, 0, 0xF2]) =
      Inr (0xB1, 0, [])"
    by (simp add: unpack_message_def bytes_sum_def MESSAGE_RECV_SEP_def)
  have "snd (unpack_messages_next (0x68 # 0x00 # ?reader)) = Inr (Some ((0xB1, 0, []), [0xFF]))"
    using t unfolding r by (simp add: u)
  with r show ?thesis
    by simp
qed

text \<open>
  With \<open>L = 0\<close> and a header size of 11, ten further bytes would be read; eleven are,
  and the frame passed on has twelve bytes.
\<close>

theorem unpack_messages_header_size_counterexample:
  "MESSAGE_HEADER_SIZE \<noteq> 11
   \<and> read_message [0x68, 0x00, 0x41, 0xB1, 0, 0, 0, 0, 0, 0, 0, 0, 0xF2, 0x16, 0xFF] =
       Inr (Some ([0x00, 0x41, 0xB1, 0, 0, 0, 0, 0, 0, 0, 0, 0xF2], [0xFF]))
   \<and> length [0x41, 0xB1, 0, 0, 0, 0, 0, 0, 0, 0, 0xF2 :: byte] \<noteq> unat (0x00 :: byte) + 11 - 1"
proof -
  have n: "unat (0x00 :: byte) + MESSAGE_HEADER_SIZE - 1 = 11"
    by (simp add: MESSAGE_HEADER_SIZE_12)
  have "read_message [0x68, 0x00, 0x41, 0xB1, 0, 0, 0, 0, 0, 0, 0, 0, 0xF2, 0x16, 0xFF] =
       Inr (Some ([0x00, 0x41, 0xB1, 0, 0, 0, 0, 0, 0, 0, 0, 0xF2], [0xFF]))"
    unfolding read_message_start Let_def n by (simp add: MESSAGE_END_def)
  then show ?thesis
    by (simp add: MESSAGE_HEADER_SIZE_12)
qed

section \<open>Properties of the information reply decoder\<close>

lemma example_length: "length example_information_reply = 125"
  by (simp add: example_information_reply_def)

lemma parse_example_information_reply:
  "snd (parse_information_reply example_information_reply) = Inr example_information"
  by code_simp

lemma parse_information_reply_short:
  "length data < 125 \<Longrightarrow> parse_information_reply data = ([], Inl ValueError)"
  by (simp add: parse_information_reply_def from_buffer_copy_def)

lemma parse_information_reply_result:
  assumes "125 \<le> length data"
  shows "snd (parse_information_reply data) =
     (case utf8_decode (c_char_array_value (field_bytes 3 16 data)) of
        None \<Rightarrow> Inl UnicodeDecodeError
      | Some serial_number_str \<Rightarrow>
          (case int_to_bool (c_ushort 67 data) of
             Inl e \<Rightarrow> Inl e
           | Inr inverter_active_bool \<Rightarrow>
               (case utf8_decode (c_char_array_value (field_bytes 85 16 data)) of
                  None \<Rightarrow> Inl UnicodeDecodeError
                | Some firmware_str \<Rightarrow>
                    (case utf8_decode (c_char_array_value (field_bytes 105 16 data)) of
                       None \<Rightarrow> Inl UnicodeDecodeError
                     | Some firmware_slave_str \<Rightarrow>
                         Inr [(''serial_number'', PyStr serial_number_str),
                              (''temperature'', temperature_to_float (c_ushort 19 data)),
                              (''dc_input_voltage'', list_divide_10 (c_ushort_array 21 3 data)),
                              (''dc_input_current'', list_divide_10 (c_ushort_array 27 3 data)),
                              (''ac_output_current'', list_divide_10 (c_ushort_array 33 3 data)),
                              (''ac_output_voltage'', list_divide_10 (c_ushort_array 39 3 data)),
                              (''ac_output_frequency'',
                                 PyList (map (\<lambda>i. get_frequency
                                                  \<lparr>ac_frequency = c_ushort (45 + 4 * i) data,
                                                   ac_power = c_ushort (45 + 4 * i + 2) data\<rparr>)
                                           [0..<3])),
                              (''ac_output_power'',
                                 PyList (map (\<lambda>i. get_power
                                                  \<lparr>ac_frequency = c_ushort (45 + 4 * i) data,
                                                   ac_power = c_ushort (45 + 4 * i + 2) data\<rparr>)
                                           [0..<3])),
                              (''solar_energy_today'',
                                 PyFloat (int_times_float (c_ushort 57 data) (float_literal 1 100))),
                              (''solar_energy_total'',
                                 PyFloat (int_times_float (c_uint 59 data) (float_literal 1 10))),
                              (''solar_hours_total'', PyInt (c_uint 63 data)),
                              (''inverter_active'', inverter_active_bool),
                              (''firmware'', PyStr firmware_str),
                              (''firmware_slave'', PyStr firmware_slave_str)]))))"
proof -
  from assms have "\<not> length data < 125"
    by simp
  then show ?thesis
    unfolding parse_information_reply_def from_buffer_copy_def Let_def
    by (simp only: if_False sum.case TcpData.simps comp_def list.map map_map
        split: option.split sum.split)
      (simp add: comp_def)
qed

text \<open>
  A payload of 125 bytes is decoded exactly when its three text fields are valid UTF-8
  up to their first zero byte and \<open>inverter_active\<close> is 0 or 1; this is the dictionary
  returned then.
\<close>

lemma parse_information_reply_returns:
  assumes "length data = 125"
    and "utf8_decode (c_char_array_value (field_bytes 3 16 data)) \<noteq> None"
    and "c_ushort 67 data = 0 \<or> c_ushort 67 data = 1"
    and "utf8_decode (c_char_array_value (field_bytes 85 16 data)) \<noteq> None"
    and "utf8_decode (c_char_array_value (field_bytes 105 16 data)) \<noteq> None"
  obtains serial_number_str firmware_str firmware_slave_str where
    "snd (parse_information_reply data) =
       Inr [(''serial_number'', PyStr serial_number_str),
        (''temperature'', temperature_to_float (c_ushort 19 data)),
        (''dc_input_voltage'', list_divide_10 (c_ushort_array 21 3 data)),
        (''dc_input_current'', list_divide_10 (c_ushort_array 27 3 data)),
        (''ac_output_current'', list_divide_10 (c_ushort_array 33 3 data)),
        (''ac_output_voltage'', list_divide_10 (c_ushort_array 39 3 data)),
        (''ac_output_frequency'',
           PyList (map (\<lambda>i. get_frequency
                            \<lparr>ac_frequency = c_ushort (45 + 4 * i) data,
                             ac_power = c_ushort (45 + 4 * i + 2) data\<rparr>) [0..<3])),
        (''ac_output_power'',
           PyList (map (\<lambda>i. get_power
                            \<lparr>ac_frequency = c_ushort (45 + 4 * i) data,
                             ac_power = c_ushort (45 + 4 * i + 2) data\<rparr>) [0..<3])),
        (''solar_energy_today'',
           PyFloat (int_times_float (c_ushort 57 data) (float_literal 1 100))),
        (''solar_energy_total'',
           PyFloat (int_times_float (c_uint 59 data) (float_literal 1 10))),
        (''solar_hours_total'', PyInt (c_uint 63 data)),
        (''inverter_active'', PyBool (c_ushort 67 data = 1)),
        (''firmware'', PyStr firmware_str),
        (''firmware_slave'', PyStr firmware_slave_str)]"
proof -
  from assms(1) have "125 \<le> length data"
    by simp
  note r = parse_information_reply_result[OF this]
  from assms(2) obtain s where s: "utf8_decode (c_char_array_value (field_bytes 3 16 data)) = Some s"
    by auto
  from assms(4) obtain f where f: "utf8_decode (c_char_array_value (field_bytes 85 16 data)) = Some f"
    by auto
  from assms(5) obtain g where g: "utf8_decode (c_char_array_value (field_bytes 105 16 data)) = Some g"
    by auto
  from assms(3) have b: "int_to_bool (c_ushort 67 data) = Inr (PyBool (c_ushort 67 data = 1))"
    by (auto simp: int_to_bool_def)
  show ?thesis
    by (rule that[of s f g]) (simp add: r s f g b)
qed

lemma upt_0_3: "[0..<3] = [0, 1, 2]"
  by code_simp

text \<open>
  The floats of the model against those of Python: \<open>0.1\<close> and \<open>0.01\<close> are
  \<open>3602879701896397 / 2\<^sup>5\<^sup>5\<close> and \<open>5764607523034235 / 2\<^sup>5\<^sup>9\<close>; \<open>3 * 0.1\<close> is
  \<open>0.30000000000000004\<close>, \<open>12 * 0.1\<close> is \<open>1.2000000000000002\<close> and not \<open>6 / 5\<close>,
  \<open>65534 * 0.1\<close> is \<open>6553.400000000001\<close>, \<open>4294967295 * 0.1\<close> is \<open>429496729.5\<close>.
\<close>

lemma float_literals:
  "float_literal 1 10 = (3602879701896397, - 55)"
  "float_literal 1 100 = (5764607523034235, - 59)"
  by code_simp+

lemma float_products:
  "int_times_float 3 (float_literal 1 10) = (1351079888211149, - 52)"
  "int_times_float 65534 (float_literal 1 10) = (7205539501467239, - 40)"
  "int_times_float 4294967295 (float_literal 1 10) = (858993459, - 1)"
  "float_value (int_times_float 12 (float_literal 1 10)) = 1351079888211149 / 1125899906842624"
  "float_value (int_times_float 12 (float_literal 1 10)) \<noteq> 6 / 5"
  by code_simp+

lemma example_floats:
  "int_times_float 250 (float_literal 1 10) = (25, 0)"
  "int_times_float 2000 (float_literal 1 10) = (25, 3)"
  "int_times_float 0 (float_literal 1 10) = (0, 0)"
  "int_times_float 15 (float_literal 1 10) = (3, - 1)"
  "int_times_float 12 (float_literal 1 10) = (1351079888211149, - 50)"
  "int_times_float 2300 (float_literal 1 10) = (115, 1)"
  "int_times_float 5001 (float_literal 1 100) = (7038281792649953, - 47)"
  "int_times_float 0 (float_literal 1 100) = (0, 0)"
  by code_simp+

lemma example_raw:
  "c_ushort 19 example_information_reply = 250"
  "c_ushort 21 example_information_reply = 2000"
  "c_ushort 23 example_information_reply = 65535"
  "c_ushort 25 example_information_reply = 0"
  "c_ushort 27 example_information_reply = 15"
  "c_ushort 29 example_information_reply = 0"
  "c_ushort 31 example_information_reply = 65535"
  "c_ushort 33 example_information_reply = 12"
  "c_ushort 35 example_information_reply = 65535"
  "c_ushort 37 example_information_reply = 65535"
  "c_ushort 39 example_information_reply = 2300"
  "c_ushort 41 example_information_reply = 65535"
  "c_ushort 43 example_information_reply = 65535"
  "c_ushort 45 example_information_reply = 5001"
  "c_ushort 47 example_information_reply = 350"
  "c_ushort 49 example_information_reply = 65535"
  "c_ushort 51 example_information_reply = 65535"
  "c_ushort 53 example_information_reply = 0"
  "c_ushort 55 example_information_reply = 0"
  "c_ushort 67 example_information_reply = 1"
  by code_simp+

lemma example_text_fields:
  "utf8_decode (c_char_array_value (field_bytes 3 16 example_information_reply)) \<noteq> None"
  "utf8_decode (c_char_array_value (field_bytes 85 16 example_information_reply)) \<noteq> None"
  "utf8_decode (c_char_array_value (field_bytes 105 16 example_information_reply)) \<noteq> None"
  by code_simp+

text \<open>
  Claim C3, as the code has it. A payload of 125 bytes whose \<open>inverter_active\<close> is 0
  or 1 and whose \<open>serial_number\<close>, \<open>firmware\<close> and \<open>firmware_slave\<close> are valid UTF-8
  is decoded, and in the dictionary returned: the temperature is \<open>None\<close> for the raw
  value 65326 and the float product \<open>raw * 0.1\<close> otherwise; each frequency of
  \<open>ac_output\<close> is \<open>None\<close> for the raw value 65535 and the float product \<open>raw * 0.01\<close>
  otherwise; each power of \<open>ac_output\<close> is \<open>None\<close> for the raw value 65535 and the raw
  value otherwise. The raw values are the big-endian 16-bit integers at the offsets
  19 (temperature), \<open>45 + 4 i\<close> (frequency) and \<open>47 + 4 i\<close> (power).
\<close>

theorem information_reply_sentinels:
  assumes "length data = 125"
    and "utf8_decode (c_char_array_value (field_bytes 3 16 data)) \<noteq> None"
    and "c_ushort 67 data = 0 \<or> c_ushort 67 data = 1"
    and "utf8_decode (c_char_array_value (field_bytes 85 16 data)) \<noteq> None"
    and "utf8_decode (c_char_array_value (field_bytes 105 16 data)) \<noteq> None"
  shows "\<exists>info. snd (parse_information_reply data) = Inr info
           \<and> map_of info ''temperature'' =
               Some (if c_ushort 19 data = 65326 then PyNone
                     else PyFloat (int_times_float (c_ushort 19 data) (float_literal 1 10)))
           \<and> map_of info ''ac_output_frequency'' =
               Some (PyList (map (\<lambda>i. if c_ushort (45 + 4 * i) data = 65535 then PyNone
                                      else PyFloat (int_times_float (c_ushort (45 + 4 * i) data)
                                                      (float_literal 1 100)))
                               [0..<3]))
           \<and> map_of info ''ac_output_power'' =
               Some (PyList (map (\<lambda>i. if c_ushort (47 + 4 * i) data = 65535 then PyNone
                                      else PyInt (c_ushort (47 + 4 * i) data))
                               [0..<3]))"
proof -
  have p: "45 + 4 * i + 2 = 47 + 4 * i" for i :: nat
    by simp
  from assms show ?thesis
    by (rule parse_information_reply_returns)
      (simp add: temperature_to_float_def get_frequency_def get_power_def UINT16_MAX_def p
        del: upt_Suc)
qed

text \<open>
  The example payload (temperature 250; frequencies 5001, 65535, 0; powers 350, 65535,
  0), and the same payload with the temperature 65326.
\<close>

theorem information_reply_sentinels_witness:
  "(\<exists>info. snd (parse_information_reply example_information_reply) = Inr info
      \<and> map_of info ''temperature'' = Some (PyFloat (25, 0))
      \<and> map_of info ''ac_output_frequency'' =
          Some (PyList [PyFloat (7038281792649953, - 47), PyNone, PyFloat (0, 0)])
      \<and> map_of info ''ac_output_power'' = Some (PyList [PyInt 350, PyNone, PyInt 0]))
   \<and> (\<exists>info. snd (parse_information_reply
                     (example_information_reply[19 := 0xFF, 20 := 0x2E])) = Inr info
          \<and> map_of info ''temperature'' = Some PyNone)"
proof -
  let ?unset = "example_information_reply[19 := 0xFF, 20 := 0x2E]"
  have a: "c_ushort 67 example_information_reply = 0 \<or> c_ushort 67 example_information_reply = 1"
    by (simp add: example_raw)
  note first = information_reply_sentinels[OF example_length example_text_fields(1) a
      example_text_fields(2,3)]
  have l: "length ?unset = 125"
    by (simp add: example_length)
  have t: "utf8_decode (c_char_array_value (field_bytes 3 16 ?unset)) \<noteq> None"
    "utf8_decode (c_char_array_value (field_bytes 85 16 ?unset)) \<noteq> None"
    "utf8_decode (c_char_array_value (field_bytes 105 16 ?unset)) \<noteq> None"
    by code_simp+
  have r: "c_ushort 19 ?unset = 65326" "c_ushort 67 ?unset = 1"
    by code_simp+
  then have b: "c_ushort 67 ?unset = 0 \<or> c_ushort 67 ?unset = 1"
    by simp
  note second = information_reply_sentinels[OF l t(1) b t(2,3)]
  from first have "\<exists>info. snd (parse_information_reply example_information_reply) = Inr info
      \<and> map_of info ''temperature'' = Some (PyFloat (25, 0))
      \<and> map_of info ''ac_output_frequency'' =
          Some (PyList [PyFloat (7038281792649953, - 47), PyNone, PyFloat (0, 0)])
      \<and> map_of info ''ac_output_power'' = Some (PyList [PyInt 350, PyNone, PyInt 0])"
    by (simp add: upt_0_3 example_raw example_floats)
  moreover from second have "\<exists>info. snd (parse_information_reply ?unset) = Inr info
      \<and> map_of info ''temperature'' = Some PyNone"
    unfolding r by auto
  ultimately show ?thesis
    by (rule conjI)
qed

text \<open>
  The example payload with the temperature 65326 and \<open>inverter_active\<close> 2: decoding
  raises, the temperature is not decoded to \<open>None\<close>.
\<close>

theorem information_reply_sentinels_counterexample:
  "length (example_information_reply[19 := 0xFF, 20 := 0x2E, 68 := 0x02]) = 125
   \<and> c_ushort 19 (example_information_reply[19 := 0xFF, 20 := 0x2E, 68 := 0x02]) = 65326
   \<and> snd (parse_information_reply
            (example_information_reply[19 := 0xFF, 20 := 0x2E, 68 := 0x02])) =
       Inl (KeyError 2)"
proof -
  have "c_ushort 19 (example_information_reply[19 := 0xFF, 20 := 0x2E, 68 := 0x02]) = 65326"
    by code_simp
  moreover have "snd (parse_information_reply
            (example_information_reply[19 := 0xFF, 20 := 0x2E, 68 := 0x02])) =
       Inl (KeyError 2)"
    by code_simp
  ultimately show ?thesis
    by (simp add: example_length)
qed

text \<open>
  Claim C4, as the code has it. A payload of 125 bytes whose \<open>inverter_active\<close> is 0
  or 1 and whose \<open>serial_number\<close>, \<open>firmware\<close> and \<open>firmware_slave\<close> are valid UTF-8
  is decoded, and every element of \<open>dc_input_voltage\<close>, \<open>dc_input_current\<close>,
  \<open>ac_output_current\<close> and \<open>ac_output_voltage\<close> in the dictionary returned is \<open>None\<close>
  for the raw value 65535 and the float product \<open>raw * 0.1\<close> otherwise:
  \<open>list_divide_10\<close> has the same sentinel as the power and the frequency. The raw
  values are the big-endian 16-bit integers at the offsets \<open>21 + 2 i\<close>, \<open>27 + 2 i\<close>,
  \<open>33 + 2 i\<close> and \<open>39 + 2 i\<close>.
\<close>

theorem information_reply_arrays:
  assumes "length data = 125"
    and "utf8_decode (c_char_array_value (field_bytes 3 16 data)) \<noteq> None"
    and "c_ushort 67 data = 0 \<or> c_ushort 67 data = 1"
    and "utf8_decode (c_char_array_value (field_bytes 85 16 data)) \<noteq> None"
    and "utf8_decode (c_char_array_value (field_bytes 105 16 data)) \<noteq> None"
  shows "\<exists>info. snd (parse_information_reply data) = Inr info
           \<and> map_of info ''dc_input_voltage'' =
               Some (PyList (map (\<lambda>i. if c_ushort (21 + 2 * i) data = 65535 then PyNone
                                  else PyFloat (int_times_float (c_ushort (21 + 2 * i) data)
                                                  (float_literal 1 10)))
                           [0..<3]))
           \<and> map_of info ''dc_input_current'' =
               Some (PyList (map (\<lambda>i. if c_ushort (27 + 2 * i) data = 65535 then PyNone
                                  else PyFloat (int_times_float (c_ushort (27 + 2 * i) data)
                                                  (float_literal 1 10)))
                           [0..<3]))
           \<and> map_of info ''ac_output_current'' =
               Some (PyList (map (\<lambda>i. if c_ushort (33 + 2 * i) data = 65535 then PyNone
                                  else PyFloat (int_times_float (c_ushort (33 + 2 * i) data)
                                                  (float_literal 1 10)))
                           [0..<3]))
           \<and> map_of info ''ac_output_voltage'' =
               Some (PyList (map (\<lambda>i. if c_ushort (39 + 2 * i) data = 65535 then PyNone
                                  else PyFloat (int_times_float (c_ushort (39 + 2 * i) data)
                                                  (float_literal 1 10)))
                           [0..<3]))"
  using assms
  by (rule parse_information_reply_returns)
    (simp add: list_divide_10_def c_ushort_array_def UINT16_MAX_def comp_def del: upt_Suc)

text \<open>
  The example payload: voltages 2000, 65535, 0 and 2300, 65535, 65535; currents
  15, 0, 65535 and 12, 65535, 65535. The floats are 200.0, 0.0, 1.5,
  1.2000000000000002 and 230.0.
\<close>

theorem information_reply_arrays_witness:
  "\<exists>info. snd (parse_information_reply example_information_reply) = Inr info
     \<and> map_of info ''dc_input_voltage'' =
         Some (PyList [PyFloat (25, 3), PyNone, PyFloat (0, 0)])
     \<and> map_of info ''dc_input_current'' =
         Some (PyList [PyFloat (3, - 1), PyFloat (0, 0), PyNone])
     \<and> map_of info ''ac_output_current'' =
         Some (PyList [PyFloat (1351079888211149, - 50), PyNone, PyNone])
     \<and> map_of info ''ac_output_voltage'' =
         Some (PyList [PyFloat (115, 1), PyNone, PyNone])"
proof -
  have a: "c_ushort 67 example_information_reply = 0 \<or> c_ushort 67 example_information_reply = 1"
    by (simp add: example_raw)
  from information_reply_arrays[OF example_length example_text_fields(1) a
      example_text_fields(2,3)]
  show ?thesis
    by (simp add: upt_0_3 example_raw example_floats)
qed

text \<open>
  The second element of \<open>dc_input_voltage\<close> of the example payload has the raw value
  65535 and is decoded to \<open>None\<close>, not to the float \<open>65535 * 0.1\<close>.
\<close>

theorem information_reply_arrays_counterexample:
  "length example_information_reply = 125
   \<and> c_ushort 23 example_information_reply = 65535
   \<and> snd (parse_information_reply example_information_reply) = Inr example_information
   \<and> map_of example_information ''dc_input_voltage'' =
       Some (PyList [PyFloat (25, 3), PyNone, PyFloat (0, 0)])
   \<and> PyNone \<noteq> PyFloat (int_times_float 65535 (float_literal 1 10))"
  by (simp add: example_length example_raw parse_example_information_reply
      example_information_def)

text \<open>
  Claim C6. For a payload of 125 bytes whose \<open>inverter_active\<close> field (the big-endian
  16-bit integer at offset 67) is neither 0 nor 1, \<open>_parse_information_reply\<close> never
  returns a result: \<open>int_to_bool\<close> raises \<open>KeyError\<close> for the value, unless the
  \<open>serial_number\<close> field, which is extracted before, is not valid UTF-8 and its
  \<open>UnicodeDecodeError\<close> is raised first.
\<close>

theorem information_reply_inverter_active:
  assumes "length data = 125" and "c_ushort 67 data \<noteq> 0" and "c_ushort 67 data \<noteq> 1"
  shows "snd (parse_information_reply data) =
           (case utf8_decode (c_char_array_value (field_bytes 3 16 data)) of
              None \<Rightarrow> Inl UnicodeDecodeError
            | Some serial_number_str \<Rightarrow> Inl (KeyError (c_ushort 67 data)))"
proof -
  from assms(1) have "125 \<le> length data"
    by simp
  from parse_information_reply_result[OF this] assms(2,3) show ?thesis
    by (simp add: int_to_bool_def split: option.splits)
qed

text \<open>The example payload with \<open>inverter_active\<close> set to 2.\<close>

theorem information_reply_inverter_active_witness:
  "length (example_information_reply[68 := 0x02]) = 125
   \<and> c_ushort 67 (example_information_reply[68 := 0x02]) = 2
   \<and> snd (parse_information_reply (example_information_reply[68 := 0x02])) = Inl (KeyError 2)"
proof -
  have l: "length (example_information_reply[68 := 0x02]) = 125"
    by (simp add: example_length)
  have a: "c_ushort 67 (example_information_reply[68 := 0x02]) = 2"
    by code_simp
  have s: "utf8_decode (c_char_array_value
             (field_bytes 3 16 (example_information_reply[68 := 0x02]))) =
           Some [78, 76, 68, 78, 48, 49, 50, 48, 49, 51, 65, 66, 67, 68, 69, 70]"
    by code_simp
  have "c_ushort 67 (example_information_reply[68 := 0x02]) \<noteq> 0"
    "c_ushort 67 (example_information_reply[68 := 0x02]) \<noteq> 1"
    by (simp_all add: a)
  from information_reply_inverter_active[OF l this] show ?thesis
    by (simp add: example_length a s)
qed

section \<open>Properties of \<open>parse_messages\<close>\<close>

lemma other_records_append: "other_records (a @ b) = other_records a @ other_records b"
  by (simp add: other_records_def)

lemma other_records_serial:
  "other_records (if c then [DebugSerialNotEqual a b] else []) = []"
  by (simp add: other_records_def)

lemmas message_type_defs =
  MESSAGE_TYPE_INFORMATION_REPLY_def MESSAGE_TYPE_STRING_def MESSAGE_TYPE_ERROR_STRING_def

lemma parse_messages_loop_serial:
  assumes "other_records lg = other_records lg'"
  shows "snd (parse_messages_loop serial_number info lg reader) =
           snd (parse_messages_loop serial_number' info lg' reader)
         \<and> other_records (fst (parse_messages_loop serial_number info lg reader)) =
           other_records (fst (parse_messages_loop serial_number' info lg' reader))"
  using assms
proof (induction "length reader" arbitrary: reader info lg lg' rule: less_induct)
  case less
  note eq = less.prems
  show ?case
  proof (cases "unpack_messages_next reader")
    case (Pair lg1 res)
    show ?thesis
    proof (cases res)
      case (Inl e)
      show ?thesis
        by (subst parse_messages_loop.simps, subst (2) parse_messages_loop.simps,
            subst (3) parse_messages_loop.simps, subst (4) parse_messages_loop.simps)
          (simp add: Pair Inl other_records_append eq)
    next
      case (Inr opt)
      show ?thesis
      proof (cases opt)
        case None
        show ?thesis
          by (subst parse_messages_loop.simps, subst (2) parse_messages_loop.simps,
              subst (3) parse_messages_loop.simps, subst (4) parse_messages_loop.simps)
            (simp add: Pair Inr None other_records_append eq)
      next
        case (Some y)
        obtain message_type reply_serial_number message reader' where
          y: "y = ((message_type, reply_serial_number, message), reader')"
          by (cases y) auto
        have next_eq: "unpack_messages_next reader =
            (lg1, Inr (Some ((message_type, reply_serial_number, message), reader')))"
          by (simp add: Pair Inr Some y)
        then have shorter: "length reader' < length reader"
          by (rule unpack_messages_next_length)
        define lg2 where "lg2 = lg @ lg1
              @ (if reply_serial_number \<noteq> serial_number
                 then [DebugSerialNotEqual reply_serial_number serial_number] else [])"
        define lg2' where "lg2' = lg' @ lg1
              @ (if reply_serial_number \<noteq> serial_number'
                 then [DebugSerialNotEqual reply_serial_number serial_number'] else [])"
        have eq2: "other_records lg2 = other_records lg2'"
          by (simp only: lg2_def lg2'_def other_records_append other_records_serial eq)
        have step: "parse_messages_loop sn info0 lg0 reader =
            (let lg2 = lg0 @ lg1
                    @ (if reply_serial_number \<noteq> sn
                       then [DebugSerialNotEqual reply_serial_number sn] else [])
             in
             if message_type = MESSAGE_TYPE_INFORMATION_REPLY then
               (let lg3 = lg2 @ (if info0 \<noteq> None then [WarningMultipleInformationReply] else [])
                in case parse_information_reply message of
                     (lg4, Inl e) \<Rightarrow> (lg3 @ lg4, Inl e)
                   | (lg4, Inr new_info) \<Rightarrow>
                       parse_messages_loop sn (Some new_info) (lg3 @ lg4) reader')
             else if message_type = MESSAGE_TYPE_STRING then
               (case utf8_decode message of
                  None \<Rightarrow> (lg2, Inl UnicodeDecodeError)
                | Some message_text \<Rightarrow>
                    parse_messages_loop sn info0
                      (lg2 @ [WarningTextMessage (strip message_text)]) reader')
             else if message_type = MESSAGE_TYPE_ERROR_STRING then
               parse_messages_loop sn info0 (lg2 @ [WarningErrorMessage message]) reader'
             else
               (lg2, Inl (OmnikInverterPacketInvalidError
                            (UnknownMessageType message_type message))))" for sn info0 lg0
          by (subst parse_messages_loop.simps) (simp only: next_eq prod.case sum.case option.case)
        show ?thesis
        proof (cases "message_type = MESSAGE_TYPE_INFORMATION_REPLY")
          case True
          obtain lg4 r4 where p: "parse_information_reply message = (lg4, r4)"
            by (cases "parse_information_reply message") auto
          define lg3 where "lg3 = lg2 @ (if info \<noteq> None then [WarningMultipleInformationReply] else [])"
          define lg3' where "lg3' = lg2' @ (if info \<noteq> None then [WarningMultipleInformationReply] else [])"
          have eq3: "other_records (lg3 @ lg4) = other_records (lg3' @ lg4)"
            by (simp only: lg3_def lg3'_def other_records_append eq2)
          show ?thesis
          proof (cases r4)
            case (Inl e)
            show ?thesis
              unfolding step Let_def lg2_def[symmetric] lg2'_def[symmetric]
                lg3_def[symmetric] lg3'_def[symmetric]
              using eq3 by (simp add: True p Inl)
          next
            case (Inr new_info)
            from less.hyps[OF shorter eq3, of "Some new_info"] show ?thesis
              unfolding step Let_def lg2_def[symmetric] lg2'_def[symmetric]
                lg3_def[symmetric] lg3'_def[symmetric]
              by (simp add: True p Inr)
          qed
        next
          case False
          note not_info = False
          show ?thesis
          proof (cases "message_type = MESSAGE_TYPE_STRING")
            case True
            show ?thesis
            proof (cases "utf8_decode message")
              case None
              show ?thesis
                unfolding step Let_def lg2_def[symmetric] lg2'_def[symmetric]
                using eq2 by (simp add: not_info[unfolded True] True None message_type_defs)
            next
              case (Some message_text)
              have "other_records (lg2 @ [WarningTextMessage (strip message_text)]) =
                  other_records (lg2' @ [WarningTextMessage (strip message_text)])"
                by (simp only: other_records_append eq2)
              from less.hyps[OF shorter this, of info] show ?thesis
                unfolding step Let_def lg2_def[symmetric] lg2'_def[symmetric]
                by (simp add: not_info[unfolded True] True Some message_type_defs)
            qed
          next
            case False
            note not_string = False
            show ?thesis
            proof (cases "message_type = MESSAGE_TYPE_ERROR_STRING")
              case True
              have "other_records (lg2 @ [WarningErrorMessage message]) =
                  other_records (lg2' @ [WarningErrorMessage message])"
                by (simp only: other_records_append eq2)
              from less.hyps[OF shorter this, of info] show ?thesis
                unfolding step Let_def lg2_def[symmetric] lg2'_def[symmetric]
                by (simp add: not_info[unfolded True] not_string[unfolded True] True message_type_defs)
            next
              case False
              show ?thesis
                unfolding step Let_def lg2_def[symmetric] lg2'_def[symmetric]
                using eq2 by (simp add: not_info not_string False)
            qed
          qed
        qed
      qed
    qed
  qed
qed

lemma fst_parse_messages:
  "fst (parse_messages serial_number reader) =
     fst (parse_messages_loop serial_number None [] reader)"
  by (simp add: parse_messages_def split: prod.splits sum.splits option.splits)

lemma last_information_append:
  "last_information info (before @ after) =
     last_information (last_information info before) after"
  by (induction before arbitrary: info) auto

lemma last_information_none:
  "\<forall>(message_type, serial, payload) \<in> set frames.
      message_type \<noteq> MESSAGE_TYPE_INFORMATION_REPLY \<Longrightarrow>
   last_information info frames = info"
  by (induction frames arbitrary: info) auto

lemma parse_messages_loop_step:
  assumes "unpack_messages_next reader =
      (lg1, Inr (Some ((message_type, serial, payload), reader')))"
    and "(message_type = MESSAGE_TYPE_INFORMATION_REPLY
                \<and> (\<exists>new_info. snd (parse_information_reply payload) = Inr new_info))
               \<or> message_type = MESSAGE_TYPE_ERROR_STRING
               \<or> (message_type = MESSAGE_TYPE_STRING \<and> utf8_decode payload \<noteq> None)"
  shows "\<exists>lg'. parse_messages_loop serial_number info lg reader =
                 parse_messages_loop serial_number
                   (last_information info [(message_type, serial, payload)]) lg' reader'
               \<and> set lg \<subseteq> set lg'
               \<and> (serial \<noteq> serial_number \<longrightarrow>
                    DebugSerialNotEqual serial serial_number \<in> set lg')"
proof -
  define lg2 where "lg2 = lg @ lg1
        @ (if serial \<noteq> serial_number
           then [DebugSerialNotEqual serial serial_number] else [])"
  have sub: "set lg \<subseteq> set lg2"
    and dbg: "serial \<noteq> serial_number \<longrightarrow> DebugSerialNotEqual serial serial_number \<in> set lg2"
    by (auto simp: lg2_def)
  have step: "parse_messages_loop serial_number info lg reader =
      (if message_type = MESSAGE_TYPE_INFORMATION_REPLY then
         (let lg3 = lg2 @ (if info \<noteq> None then [WarningMultipleInformationReply] else [])
          in case parse_information_reply payload of
               (lg4, Inl e) \<Rightarrow> (lg3 @ lg4, Inl e)
             | (lg4, Inr new_info) \<Rightarrow>
                 parse_messages_loop serial_number (Some new_info) (lg3 @ lg4) reader')
       else if message_type = MESSAGE_TYPE_STRING then
         (case utf8_decode payload of
            None \<Rightarrow> (lg2, Inl UnicodeDecodeError)
          | Some message_text \<Rightarrow>
              parse_messages_loop serial_number info
                (lg2 @ [WarningTextMessage (strip message_text)]) reader')
       else if message_type = MESSAGE_TYPE_ERROR_STRING then
         parse_messages_loop serial_number info (lg2 @ [WarningErrorMessage payload]) reader'
       else
         (lg2, Inl (OmnikInverterPacketInvalidError
                      (UnknownMessageType message_type payload))))"
    by (subst parse_messages_loop.simps)
      (simp only: assms(1) prod.case sum.case option.case Let_def lg2_def)
  show ?thesis
  proof (cases "message_type = MESSAGE_TYPE_INFORMATION_REPLY")
    case True
    with assms(2) obtain new_info where
      n: "snd (parse_information_reply payload) = Inr new_info"
      by (auto simp: message_type_defs)
    obtain lg4 where p: "parse_information_reply payload = (lg4, Inr new_info)"
      using n by (cases "parse_information_reply payload") auto
    define lg3 where
      "lg3 = lg2 @ (if info \<noteq> None then [WarningMultipleInformationReply] else [])"
    have "parse_messages_loop serial_number info lg reader =
        parse_messages_loop serial_number
          (last_information info [(message_type, serial, payload)]) (lg3 @ lg4) reader'"
      unfolding step Let_def lg3_def[symmetric] by (simp add: True p)
    moreover have "set lg \<subseteq> set (lg3 @ lg4)"
      using sub by (auto simp: lg3_def)
    moreover have "serial \<noteq> serial_number \<longrightarrow>
        DebugSerialNotEqual serial serial_number \<in> set (lg3 @ lg4)"
      using dbg by (auto simp: lg3_def)
    ultimately show ?thesis
      by blast
  next
    case False
    note not_info = False
    show ?thesis
    proof (cases "message_type = MESSAGE_TYPE_STRING")
      case True
      with assms(2) obtain message_text where d: "utf8_decode payload = Some message_text"
        by (auto simp: message_type_defs)
      have "parse_messages_loop serial_number info lg reader =
          parse_messages_loop serial_number
            (last_information info [(message_type, serial, payload)])
            (lg2 @ [WarningTextMessage (strip message_text)]) reader'"
        unfolding step by (simp add: not_info[unfolded True] True d message_type_defs)
      moreover have "set lg \<subseteq> set (lg2 @ [WarningTextMessage (strip message_text)])"
        using sub by auto
      moreover have "serial \<noteq> serial_number \<longrightarrow>
          DebugSerialNotEqual serial serial_number
            \<in> set (lg2 @ [WarningTextMessage (strip message_text)])"
        using dbg by auto
      ultimately show ?thesis
        by blast
    next
      case False
      with not_info assms(2) have e: "message_type = MESSAGE_TYPE_ERROR_STRING"
        by auto
      have "parse_messages_loop serial_number info lg reader =
          parse_messages_loop serial_number
            (last_information info [(message_type, serial, payload)])
            (lg2 @ [WarningErrorMessage payload]) reader'"
        unfolding step by (simp add: e message_type_defs)
      moreover have "set lg \<subseteq> set (lg2 @ [WarningErrorMessage payload])"
        using sub by auto
      moreover have "serial \<noteq> serial_number \<longrightarrow>
          DebugSerialNotEqual serial serial_number \<in> set (lg2 @ [WarningErrorMessage payload])"
        using dbg by auto
      ultimately show ?thesis
        by blast
    qed
  qed
qed

lemma parse_messages_loop_frames:
  assumes "unpack_messages reader = (lgu, frames, None)"
    and "\<forall>(message_type, serial, payload) \<in> set frames.
           (message_type = MESSAGE_TYPE_INFORMATION_REPLY
                \<and> (\<exists>new_info. snd (parse_information_reply payload) = Inr new_info))
               \<or> message_type = MESSAGE_TYPE_ERROR_STRING
               \<or> (message_type = MESSAGE_TYPE_STRING \<and> utf8_decode payload \<noteq> None)"
  shows "snd (parse_messages_loop serial_number info lg reader) =
           Inr (last_information info frames)
         \<and> set lg \<subseteq> set (fst (parse_messages_loop serial_number info lg reader))
         \<and> (\<forall>(message_type, serial, payload) \<in> set frames.
               serial \<noteq> serial_number \<longrightarrow>
               DebugSerialNotEqual serial serial_number
                 \<in> set (fst (parse_messages_loop serial_number info lg reader)))"
  using assms
proof (induction "length reader" arbitrary: reader lgu frames info lg rule: less_induct)
  case less
  show ?case
  proof (cases "unpack_messages_next reader")
    case (Pair lg1 res)
    show ?thesis
    proof (cases res)
      case (Inl e)
      with less.prems(1) Pair show ?thesis
        by (simp add: unpack_messages.simps[of reader])
    next
      case (Inr opt)
      show ?thesis
      proof (cases opt)
        case None
        with less.prems(1) Pair Inr have "frames = []"
          by (simp add: unpack_messages.simps[of reader])
        then show ?thesis
          by (subst parse_messages_loop.simps, subst (2) parse_messages_loop.simps)
            (simp add: Pair Inr None)
      next
        case (Some y)
        obtain message_type serial payload reader' where
          y: "y = ((message_type, serial, payload), reader')"
          by (cases y) auto
        have next_eq: "unpack_messages_next reader =
            (lg1, Inr (Some ((message_type, serial, payload), reader')))"
          by (simp add: Pair Inr Some y)
        then have shorter: "length reader' < length reader"
          by (rule unpack_messages_next_length)
        obtain lgu' frames' r' where rest: "unpack_messages reader' = (lgu', frames', r')"
          by (cases "unpack_messages reader'") auto
        from less.prems(1) have fr: "frames = (message_type, serial, payload) # frames'"
          and r': "r' = None"
          by (simp_all add: unpack_messages.simps[of reader] next_eq rest)
        from less.prems(2) have first: "(message_type = MESSAGE_TYPE_INFORMATION_REPLY
                \<and> (\<exists>new_info. snd (parse_information_reply payload) = Inr new_info))
               \<or> message_type = MESSAGE_TYPE_ERROR_STRING
               \<or> (message_type = MESSAGE_TYPE_STRING \<and> utf8_decode payload \<noteq> None)"
          and others: "\<forall>(message_type, serial, payload) \<in> set frames'.
           (message_type = MESSAGE_TYPE_INFORMATION_REPLY
                \<and> (\<exists>new_info. snd (parse_information_reply payload) = Inr new_info))
               \<or> message_type = MESSAGE_TYPE_ERROR_STRING
               \<or> (message_type = MESSAGE_TYPE_STRING \<and> utf8_decode payload \<noteq> None)"
          by (simp_all add: fr)
        from parse_messages_loop_step[OF next_eq first, of serial_number info lg]
        obtain lg' where
          l: "parse_messages_loop serial_number info lg reader =
                parse_messages_loop serial_number
                  (last_information info [(message_type, serial, payload)]) lg' reader'"
          and sub: "set lg \<subseteq> set lg'"
          and dbg: "serial \<noteq> serial_number \<longrightarrow>
                      DebugSerialNotEqual serial serial_number \<in> set lg'"
          by blast
        note ih = less.hyps[OF shorter rest[unfolded r'] others,
            of "last_information info [(message_type, serial, payload)]" lg']
        have li: "last_information (last_information info [(message_type, serial, payload)]) frames'
            = last_information info frames"
          by (simp add: fr)
        from ih sub dbg show ?thesis
          unfolding l li by (auto simp: fr)
      qed
    qed
  qed
qed

text \<open>The example stream, and what \<open>parse_messages\<close> does with it.\<close>

lemma unpack_example_stream:
  "snd (unpack_messages example_stream) =
     ([(0xF0, 123456789, [0x4E, 0x4F, 0x20, 0x44, 0x41, 0x54, 0x41, 0x0D, 0x0A]),
       (0xB0, 123456789, example_information_reply),
       (0xB1, 123456789, [0x01])],
      None)"
  by code_simp

text \<open>
  Claim C10. Let the stream hold messages that the loop of \<open>parse_messages\<close> passes
  over (information replies that decode, error strings, strings that decode as
  UTF-8), the last information reply among them with the payload \<open>message\<close>, which
  decodes to \<open>info\<close>, and let the generator end without an exception. Then, whatever
  serial number is requested and whatever serial numbers the messages carry:
  \<open>parse_messages\<close> returns \<open>info\<close>, the decoding of that last information reply, so
  the stream is read on to its end; for every message of the stream whose serial
  number differs from the requested one the debug record of the disagreement is
  written; and apart from these debug records the log is the one written when the
  serial number of the reply is requested.
\<close>

theorem parse_messages_serial_not_fatal:
  assumes "snd (unpack_messages reader) =
      (before @ (MESSAGE_TYPE_INFORMATION_REPLY, reply_serial_number, message) # after, None)"
    and "snd (parse_information_reply message) = Inr info"
    and "\<forall>(message_type, serial, payload) \<in> set before.
           (message_type = MESSAGE_TYPE_INFORMATION_REPLY
                \<and> (\<exists>new_info. snd (parse_information_reply payload) = Inr new_info))
               \<or> message_type = MESSAGE_TYPE_ERROR_STRING
               \<or> (message_type = MESSAGE_TYPE_STRING \<and> utf8_decode payload \<noteq> None)"
    and "\<forall>(message_type, serial, payload) \<in> set after.
           message_type = MESSAGE_TYPE_ERROR_STRING
           \<or> (message_type = MESSAGE_TYPE_STRING \<and> utf8_decode payload \<noteq> None)"
  shows "snd (parse_messages serial_number reader) = Inr info
         \<and> (\<forall>(message_type, serial, payload)
               \<in> set (before
                        @ (MESSAGE_TYPE_INFORMATION_REPLY, reply_serial_number, message) # after).
               serial \<noteq> serial_number \<longrightarrow>
               DebugSerialNotEqual serial serial_number
                 \<in> set (fst (parse_messages serial_number reader)))
         \<and> other_records (fst (parse_messages serial_number reader)) =
             other_records (fst (parse_messages reply_serial_number reader))"
proof -
  let ?frames = "before @ (MESSAGE_TYPE_INFORMATION_REPLY, reply_serial_number, message) # after"
  obtain lgu where u: "unpack_messages reader = (lgu, ?frames, None)"
    using assms(1) by (cases "unpack_messages reader") auto
  have pass: "\<forall>(message_type, serial, payload) \<in> set ?frames.
           (message_type = MESSAGE_TYPE_INFORMATION_REPLY
                \<and> (\<exists>new_info. snd (parse_information_reply payload) = Inr new_info))
               \<or> message_type = MESSAGE_TYPE_ERROR_STRING
               \<or> (message_type = MESSAGE_TYPE_STRING \<and> utf8_decode payload \<noteq> None)"
    using assms(2,3,4) by auto
  have no_reply: "\<forall>(message_type, serial, payload) \<in> set after.
      message_type \<noteq> MESSAGE_TYPE_INFORMATION_REPLY"
    using assms(4) by (auto simp: message_type_defs)
  have "last_information None ?frames =
      last_information
        (last_information (last_information None before)
           [(MESSAGE_TYPE_INFORMATION_REPLY, reply_serial_number, message)]) after"
    using last_information_append[of None before
        "(MESSAGE_TYPE_INFORMATION_REPLY, reply_serial_number, message) # after"]
      last_information_append[of "last_information None before"
        "[(MESSAGE_TYPE_INFORMATION_REPLY, reply_serial_number, message)]" after]
    by simp
  also have "\<dots> = Some info"
    by (simp add: last_information_none[OF no_reply] assms(2))
  finally have li: "last_information None ?frames = Some info" .
  note f = parse_messages_loop_frames[OF u pass, of serial_number None "[]"]
  obtain lg r where l: "parse_messages_loop serial_number None [] reader = (lg, r)"
    by (cases "parse_messages_loop serial_number None [] reader") auto
  from f have r: "r = Inr (Some info)"
    by (simp add: l li)
  have result: "snd (parse_messages serial_number reader) = Inr info"
    by (simp add: parse_messages_def l r)
  have logged: "\<forall>(message_type, serial, payload) \<in> set ?frames.
      serial \<noteq> serial_number \<longrightarrow>
      DebugSerialNotEqual serial serial_number \<in> set (fst (parse_messages serial_number reader))"
    using f unfolding fst_parse_messages by blast
  have "other_records [] = other_records []"
    by simp
  from parse_messages_loop_serial[OF this, of serial_number None reader reply_serial_number]
  have others: "other_records (fst (parse_messages serial_number reader)) =
      other_records (fst (parse_messages reply_serial_number reader))"
    unfolding fst_parse_messages by simp
  from result logged others show ?thesis
    by (intro conjI)
qed

text \<open>
  The example stream: a text message, the information reply and an error message
  carry the serial number 123456789; the serial number 1 is requested. The dictionary
  of the example payload is returned and the disagreement is in the log.
\<close>

theorem parse_messages_serial_not_fatal_witness:
  "snd (parse_messages 1 example_stream) = Inr example_information
   \<and> DebugSerialNotEqual 123456789 1 \<in> set (fst (parse_messages 1 example_stream))
   \<and> other_records (fst (parse_messages 1 example_stream)) =
       other_records (fst (parse_messages 123456789 example_stream))"
proof -
  let ?text = "[0x4E, 0x4F, 0x20, 0x44, 0x41, 0x54, 0x41, 0x0D, 0x0A] :: byte list"
  have u: "snd (unpack_messages example_stream) =
      ([(0xF0, 123456789, ?text)]
         @ (MESSAGE_TYPE_INFORMATION_REPLY, 123456789, example_information_reply)
         # [(0xB1, 123456789, [0x01])],
       None)"
    by (simp add: unpack_example_stream MESSAGE_TYPE_INFORMATION_REPLY_def)
  have d: "utf8_decode ?text \<noteq> None"
    by code_simp
  have b: "\<forall>(message_type, serial, payload) \<in> set [(0xF0, 123456789, ?text)].
           (message_type = MESSAGE_TYPE_INFORMATION_REPLY
                \<and> (\<exists>new_info. snd (parse_information_reply payload) = Inr new_info))
               \<or> message_type = MESSAGE_TYPE_ERROR_STRING
               \<or> (message_type = MESSAGE_TYPE_STRING \<and> utf8_decode payload \<noteq> None)"
    using d by (simp add: message_type_defs)
  have a: "\<forall>(message_type, serial, payload) \<in> set [(0xB1, 123456789, [0x01 :: byte])].
           message_type = MESSAGE_TYPE_ERROR_STRING
           \<or> (message_type = MESSAGE_TYPE_STRING \<and> utf8_decode payload \<noteq> None)"
    by (simp add: message_type_defs)
  from parse_messages_serial_not_fatal[OF u parse_example_information_reply b a, of 1]
  show ?thesis
    by simp
qed

lemma unpack_messages_step:
  "unpack_messages reader =
     (case unpack_messages_next reader of
        (lg, Inl e) \<Rightarrow> (lg, [], Some e)
      | (lg, Inr None) \<Rightarrow> (lg, [], None)
      | (lg, Inr (Some (f, reader'))) \<Rightarrow>
          (case unpack_messages reader' of
             (lg', fs, r) \<Rightarrow> (lg @ lg', f # fs, r)))"
  by (rule unpack_messages.simps)

lemma parse_messages_loop_without_information:
  assumes "unpack_messages reader = (lgu, frames, None)"
    and "\<forall>f \<in> set frames. fst f \<noteq> MESSAGE_TYPE_INFORMATION_REPLY"
  shows "(snd (parse_messages_loop serial_number info lg reader) = Inr info
          \<or> (\<exists>e. snd (parse_messages_loop serial_number info lg reader) = Inl e))
         \<and> ((\<forall>(message_type, reply_serial_number, message) \<in> set frames.
                message_type = MESSAGE_TYPE_ERROR_STRING
                \<or> (message_type = MESSAGE_TYPE_STRING \<and> utf8_decode message \<noteq> None))
              \<longrightarrow> snd (parse_messages_loop serial_number info lg reader) = Inr info)"
  using assms
proof (induction "length reader" arbitrary: reader lgu frames lg rule: less_induct)
  case less
  show ?case
  proof (cases "unpack_messages_next reader")
    case (Pair lg1 res)
    show ?thesis
    proof (cases res)
      case (Inl e)
      with less.prems(1) Pair show ?thesis
        by (simp add: unpack_messages_step[of reader])
    next
      case (Inr opt)
      show ?thesis
      proof (cases opt)
        case None
        show ?thesis
          by (subst parse_messages_loop.simps, subst (2) parse_messages_loop.simps,
              subst (3) parse_messages_loop.simps)
            (simp add: Pair Inr None)
      next
        case (Some y)
        obtain message_type reply_serial_number message reader' where
          y: "y = ((message_type, reply_serial_number, message), reader')"
          by (cases y) auto
        have next_eq: "unpack_messages_next reader =
            (lg1, Inr (Some ((message_type, reply_serial_number, message), reader')))"
          by (simp add: Pair Inr Some y)
        then have shorter: "length reader' < length reader"
          by (rule unpack_messages_next_length)
        obtain lgu' frames' r' where rest: "unpack_messages reader' = (lgu', frames', r')"
          by (cases "unpack_messages reader'") auto
        from less.prems(1) have fr: "frames = (message_type, reply_serial_number, message) # frames'"
          and r': "r' = None"
          by (simp_all add: unpack_messages_step[of reader] next_eq rest)
        from less.prems(2) have not_info: "message_type \<noteq> MESSAGE_TYPE_INFORMATION_REPLY"
          and rest_not_info: "\<forall>f \<in> set frames'. fst f \<noteq> MESSAGE_TYPE_INFORMATION_REPLY"
          by (simp_all add: fr)
        note ih = less.hyps[OF shorter rest[unfolded r'] rest_not_info]
        define lg2 where "lg2 = lg @ lg1
              @ (if reply_serial_number \<noteq> serial_number
                 then [DebugSerialNotEqual reply_serial_number serial_number] else [])"
        have step: "parse_messages_loop serial_number info lg reader =
            (if message_type = MESSAGE_TYPE_STRING then
               (case utf8_decode message of
                  None \<Rightarrow> (lg2, Inl UnicodeDecodeError)
                | Some message_text \<Rightarrow>
                    parse_messages_loop serial_number info
                      (lg2 @ [WarningTextMessage (strip message_text)]) reader')
             else if message_type = MESSAGE_TYPE_ERROR_STRING then
               parse_messages_loop serial_number info (lg2 @ [WarningErrorMessage message]) reader'
             else
               (lg2, Inl (OmnikInverterPacketInvalidError
                            (UnknownMessageType message_type message))))"
          by (subst parse_messages_loop.simps)
            (simp only: next_eq prod.case sum.case option.case Let_def lg2_def not_info if_False)
        show ?thesis
        proof (cases "message_type = MESSAGE_TYPE_STRING")
          case True
          note is_string = True
          show ?thesis
          proof (cases "utf8_decode message")
            case None
            show ?thesis
              unfolding step by (simp add: is_string None fr message_type_defs)
          next
            case (Some message_text)
            from ih[of "lg2 @ [WarningTextMessage (strip message_text)]"] show ?thesis
              unfolding step by (simp add: is_string Some fr message_type_defs)
          qed
        next
          case False
          note not_string = False
          show ?thesis
          proof (cases "message_type = MESSAGE_TYPE_ERROR_STRING")
            case True
            from ih[of "lg2 @ [WarningErrorMessage message]"] show ?thesis
              unfolding step by (simp add: not_string[unfolded True] True fr message_type_defs)
          next
            case False
            show ?thesis
              unfolding step by (simp add: not_string False fr)
          qed
        qed
      qed
    qed
  qed
qed

lemma unpack_example_stream_without_reply:
  "snd (unpack_messages example_stream_without_reply) =
     ([(0xF0, 123456789, [0x4E, 0x4F, 0x20, 0x44, 0x41, 0x54, 0x41, 0x0D, 0x0A]),
       (0xB1, 123456789, [0x01])],
      None)"
  by code_simp

text \<open>
  Claim C9. Let the generator \<open>_unpack_messages\<close>, read to its end, return without an
  exception and without having yielded a message of the information reply type.
  Then \<open>parse_messages\<close> never returns a dictionary, it raises. When every message
  yielded is one that the loop of \<open>parse_messages\<close> passes over (an error string, or a
  string that decodes as UTF-8), the loop reaches the end of the stream and the
  exception is the one for a stream without information reply; otherwise it is the
  exception of the first message that the loop does not pass over (an unknown message
  type, or a string that does not decode).
\<close>

theorem parse_messages_no_information_reply:
  assumes "snd (unpack_messages reader) = (frames, None)"
    and "\<forall>f \<in> set frames. fst f \<noteq> MESSAGE_TYPE_INFORMATION_REPLY"
  shows "(\<exists>e. snd (parse_messages serial_number reader) = Inl e)
         \<and> ((\<forall>(message_type, reply_serial_number, message) \<in> set frames.
                message_type = MESSAGE_TYPE_ERROR_STRING
                \<or> (message_type = MESSAGE_TYPE_STRING \<and> utf8_decode message \<noteq> None))
              \<longrightarrow> snd (parse_messages serial_number reader) =
                    Inl (OmnikInverterPacketInvalidError NoInformationReply))"
proof -
  obtain lgu where u: "unpack_messages reader = (lgu, frames, None)"
    using assms(1) by (cases "unpack_messages reader") auto
  obtain lg r where l: "parse_messages_loop serial_number None [] reader = (lg, r)"
    by (cases "parse_messages_loop serial_number None [] reader") auto
  from parse_messages_loop_without_information[OF u assms(2), of serial_number None "[]"]
  have "r = Inr None \<or> (\<exists>e. r = Inl e)"
    and "(\<forall>(message_type, reply_serial_number, message) \<in> set frames.
            message_type = MESSAGE_TYPE_ERROR_STRING
            \<or> (message_type = MESSAGE_TYPE_STRING \<and> utf8_decode message \<noteq> None))
         \<longrightarrow> r = Inr None"
    by (simp_all add: l)
  then show ?thesis
    by (auto simp: parse_messages_def l)
qed

text \<open>The example stream with a text message and an error message only.\<close>

theorem parse_messages_no_information_reply_witness:
  "snd (unpack_messages example_stream_without_reply) =
     ([(0xF0, 123456789, [0x4E, 0x4F, 0x20, 0x44, 0x41, 0x54, 0x41, 0x0D, 0x0A]),
       (0xB1, 123456789, [0x01])],
      None)
   \<and> snd (parse_messages 123456789 example_stream_without_reply) =
       Inl (OmnikInverterPacketInvalidError NoInformationReply)"
proof -
  let ?frames = "[(0xF0, 123456789, [0x4E, 0x4F, 0x20, 0x44, 0x41, 0x54, 0x41, 0x0D, 0x0A]),
                  (0xB1, 123456789, [0x01])] :: frame list"
  have a: "\<forall>f \<in> set ?frames. fst f \<noteq> MESSAGE_TYPE_INFORMATION_REPLY"
    by (simp add: MESSAGE_TYPE_INFORMATION_REPLY_def)
  have d: "utf8_decode [0x4E, 0x4F, 0x20, 0x44, 0x41, 0x54, 0x41, 0x0D, 0x0A] =
      Some [78, 79, 32, 68, 65, 84, 65, 13, 10]"
    by code_simp
  have b: "\<forall>(message_type, reply_serial_number, message) \<in> set ?frames.
             message_type = MESSAGE_TYPE_ERROR_STRING
             \<or> (message_type = MESSAGE_TYPE_STRING \<and> utf8_decode message \<noteq> None)"
    by (simp add: message_type_defs d)
  from parse_messages_no_information_reply[OF unpack_example_stream_without_reply a,
      of 123456789] b
  show ?thesis
    by (simp only: unpack_example_stream_without_reply simp_thms)
qed

end
